theory Spec2Isabelle
  imports Complex_Main
begin

section \<open>JavaScript values\<close>

text \<open>
  The agents exchange plain JavaScript values. A value is modelled as a tree: the
  primitives \<open>undefined\<close>, \<open>null\<close>, booleans, numbers, \<open>NaN\<close>, BigInts and strings,
  arrays, and objects as lists of their own properties in insertion order. A finite number
  is a real number; the numbers a program holds are the doubles among them, and its
  arithmetic rounds (see \<open>fl\<close> below). \<open>NaN\<close> is a value of its own because the schema
  library classifies it apart from the numbers. Strings are byte strings; a character
  outside ASCII is written as its UTF-8 bytes.
\<close>

datatype json =
    JUndefined
  | JNull
  | JBool bool
  | JNum real
  | JNaN
  | JBigInt int
  | JStr string
  | JArr "json list"
  | JObj "(string \<times> json) list"

text \<open>Property access \<open>obj[key]\<close>: a property that is not there reads as \<open>undefined\<close>,
  and so does any property of a value that is not an object.\<close>

definition get_prop :: "(string \<times> json) list \<Rightarrow> string \<Rightarrow> json" where
  "get_prop kvs k = (case map_of kvs k of None \<Rightarrow> JUndefined | Some v \<Rightarrow> v)"

definition has_key :: "(string \<times> json) list \<Rightarrow> string \<Rightarrow> bool" where
  "has_key kvs k = (case map_of kvs k of None \<Rightarrow> False | Some v \<Rightarrow> True)"

fun get :: "json \<Rightarrow> string \<Rightarrow> json" where
  "get (JObj kvs) k = get_prop kvs k"
| "get v k = JUndefined"

text \<open>Truthiness, as the conditional operator and \<open>!\<close> use it.\<close>

fun truthy :: "json \<Rightarrow> bool" where
  "truthy JUndefined = False"
| "truthy JNull = False"
| "truthy (JBool b) = b"
| "truthy (JNum x) = (x \<noteq> 0)"
| "truthy JNaN = False"
| "truthy (JBigInt i) = (i \<noteq> 0)"
| "truthy (JStr s) = (s \<noteq> [])"
| "truthy (JArr xs) = True"
| "truthy (JObj kvs) = True"

section \<open>Double-precision numbers\<close>

text \<open>
  A JavaScript number is an IEEE 754 double. A finite double is a real number of the
  form \<open>m * 2 ^ e\<close> with a significand of 53 bits; \<open>fl\<close> rounds a real to the nearest
  double, ties to the even significand, with the exponent bounded below for the
  subnormal range. \<open>expo\<close> finds the exponent of a positive real by searching down from
  1023. A product or quotient of doubles is \<open>fl\<close> of the exact one; a numeric literal is
  \<open>fl\<close> of the decimal it writes. Overflow to \<open>Infinity\<close> is not modelled: no computation
  below comes near it.
\<close>

definition round_even :: "real \<Rightarrow> int" where
  "round_even y =
     (let f = \<lfloor>y\<rfloor>; d = y - of_int f
      in if d < 1 / 2 then f else if 1 / 2 < d then f + 1 else if even f then f else f + 1)"

primrec expo_search :: "nat \<Rightarrow> real \<Rightarrow> int" where
  "expo_search 0 x = - 1022"
| "expo_search (Suc k) x =
     (if 2 powi (int k - 1021) \<le> x then int k - 1021 else expo_search k x)"

definition expo :: "real \<Rightarrow> int" where
  "expo x = expo_search 2045 x"

definition fl :: "real \<Rightarrow> real" where
  "fl x =
     (if x = 0 then 0
      else (let u = 2 powi (expo \<bar>x\<bar> - 52)
            in sgn x * (of_int (round_even (\<bar>x\<bar> / u)) * u)))"

definition is_double :: "real \<Rightarrow> bool" where
  "is_double x = (\<bar>x\<bar> < 2 powi 1024 \<and> fl x = x)"

section \<open>The schema library\<close>

text \<open>
  \<open>AgentInputSchema\<close> and \<open>AgentOutputSchema\<close> are built from the combinators of the
  zod library: \<open>z.string()\<close>, \<open>z.number()\<close> with \<open>min\<close> and \<open>max\<close> checks, \<open>z.any()\<close>,
  \<open>.optional()\<close>, \<open>z.array\<close>, \<open>z.record\<close> and \<open>z.object\<close>. A schema is a value of the
  datatype \<open>schema\<close>, and \<open>parse\<close> interprets it as the library does: every property of
  an object schema is parsed, the issues of all of them are collected, each with the
  path of the offending value, and unknown properties are stripped from the result. A
  record schema parses every key of its input with the key schema and every value with
  the value schema, but for a key \<open>__proto__\<close>, which it skips.
\<close>

datatype parsed_type =
    t_undefined | t_null | t_boolean | t_number | t_nan | t_bigint
  | t_string | t_array | t_object

fun getParsedType :: "json \<Rightarrow> parsed_type" where
  "getParsedType JUndefined = t_undefined"
| "getParsedType JNull = t_null"
| "getParsedType (JBool b) = t_boolean"
| "getParsedType (JNum x) = t_number"
| "getParsedType JNaN = t_nan"
| "getParsedType (JBigInt i) = t_bigint"
| "getParsedType (JStr s) = t_string"
| "getParsedType (JArr xs) = t_array"
| "getParsedType (JObj kvs) = t_object"

datatype seg = Key string | Index nat

datatype issue_code =
    invalid_type parsed_type parsed_type
  | too_small real
  | too_big real

record issue =
  code :: issue_code
  path :: "seg list"

datatype num_check = Min real | Max real

datatype schema =
    ZString
  | ZNumber "num_check list"
  | ZAny
  | ZOptional schema
  | ZArray schema
  | ZRecord schema schema
  | ZObject "(string \<times> schema) list"

definition type_issue :: "parsed_type \<Rightarrow> json \<Rightarrow> seg list \<Rightarrow> issue list + json" where
  "type_issue expected v p = Inl [\<lparr>code = invalid_type expected (getParsedType v), path = p\<rparr>]"

fun run_check :: "seg list \<Rightarrow> real \<Rightarrow> num_check \<Rightarrow> issue list" where
  "run_check p x (Min lo) = (if x < lo then [\<lparr>code = too_small lo, path = p\<rparr>] else [])"
| "run_check p x (Max hi) = (if x > hi then [\<lparr>code = too_big hi, path = p\<rparr>] else [])"

fun issues_of :: "issue list + json \<Rightarrow> issue list" where
  "issues_of (Inl is) = is"
| "issues_of (Inr v) = []"

fun value_of :: "issue list + json \<Rightarrow> json" where
  "value_of (Inl is) = JUndefined"
| "value_of (Inr v) = v"

text \<open>The library never sets a property named \<open>__proto__\<close> on an object it builds: a
  record schema leaves such a key of its input out of its result.\<close>

definition without_proto :: "(string \<times> json) list \<Rightarrow> (string \<times> json) list" where
  "without_proto kvs = filter (\<lambda>kv. fst kv \<noteq> ''__proto__'') kvs"

text \<open>\<open>mergeArray\<close>: the parsed elements, unless an element raised an issue.\<close>

definition mergeArray :: "(issue list + json) list \<Rightarrow> issue list + json" where
  "mergeArray rs =
     (let is = concat (map issues_of rs)
      in if is = [] then Inr (JArr (map value_of rs)) else Inl is)"

text \<open>\<open>mergeObject\<close>: a parsed property is set in the result when its value is not
  \<open>undefined\<close> or when the input had the key (\<open>alwaysSet\<close>).\<close>

definition mergeObject ::
  "(string \<times> bool \<times> (issue list + json)) list \<Rightarrow> issue list + json" where
  "mergeObject pairs =
     (let is = concat (map (\<lambda>(k, alwaysSet, r). issues_of r) pairs)
      in if is = []
         then Inr (JObj (map (\<lambda>(k, alwaysSet, r). (k, value_of r))
                      (filter (\<lambda>(k, alwaysSet, r). value_of r \<noteq> JUndefined \<or> alwaysSet) pairs)))
         else Inl is)"

fun parse :: "schema \<Rightarrow> seg list \<Rightarrow> json \<Rightarrow> issue list + json" where
  "parse ZString p v = (case v of JStr s \<Rightarrow> Inr v | _ \<Rightarrow> type_issue t_string v p)"
| "parse (ZNumber checks) p v =
     (case v of
        JNum x \<Rightarrow>
          (let is = concat (map (run_check p x) checks)
           in if is = [] then Inr v else Inl is)
      | _ \<Rightarrow> type_issue t_number v p)"
| "parse ZAny p v = Inr v"
| "parse (ZOptional s) p v = (if v = JUndefined then Inr JUndefined else parse s p v)"
| "parse (ZArray s) p v =
     (case v of
        JArr xs \<Rightarrow> mergeArray (map (\<lambda>(i, x). parse s (p @ [Index i]) x) (enumerate 0 xs))
      | _ \<Rightarrow> type_issue t_array v p)"
| "parse (ZRecord ks vs) p v =
     (case v of
        JObj kvs \<Rightarrow>
          mergeObject (map (\<lambda>(k, x). (k, True,
                              (let is = issues_of (parse ks (p @ [Key k]) (JStr k))
                                        @ issues_of (parse vs (p @ [Key k]) x)
                               in if is = [] then parse vs (p @ [Key k]) x else Inl is)))
                         (without_proto kvs))
      | _ \<Rightarrow> type_issue t_object v p)"
| "parse (ZObject shape) p v =
     (case v of
        JObj kvs \<Rightarrow>
          mergeObject (map (\<lambda>(k, s). (k, has_key kvs k, parse s (p @ [Key k]) (get_prop kvs k))) shape)
      | _ \<Rightarrow> type_issue t_object v p)"

section \<open>The agent contract\<close>

definition AgentInputSchema :: schema where
  "AgentInputSchema =
     ZObject
       [(''framework'', ZString),
        (''context'', ZObject
           [(''birthData'', ZOptional (ZObject
               [(''date'', ZString),
                (''time'', ZString),
                (''location'', ZObject
                   [(''latitude'', ZNumber []),
                    (''longitude'', ZNumber [])])])),
            (''healthMetrics'', ZOptional (ZRecord ZString ZAny)),
            (''journalThemes'', ZOptional (ZArray ZString)),
            (''userQuery'', ZOptional ZString)])]"

definition AgentOutputSchema :: schema where
  "AgentOutputSchema =
     ZObject
       [(''calculation'', ZOptional ZAny),
        (''correlations'', ZOptional (ZArray ZString)),
        (''interpretationSeed'', ZString),
        (''visualizationData'', ZOptional ZAny),
        (''method'', ZString),
        (''confidence'', ZOptional (ZNumber [Min 0, Max 1]))]"

text \<open>What a method of an agent can throw: the schema library's error with its list of
  issues, the agent's own \<open>Error\<close> with its message, or a \<open>TypeError\<close> of the runtime
  (whose message depends on the engine and is left out).\<close>

datatype error = ZodError "issue list" | Error string | TypeError

definition schema_parse :: "schema \<Rightarrow> json \<Rightarrow> error + json" where
  "schema_parse s input =
     (case parse s [] input of Inl is \<Rightarrow> Inl (ZodError is) | Inr v \<Rightarrow> Inr v)"

definition validateInput :: "json \<Rightarrow> error + json" where
  "validateInput input = schema_parse AgentInputSchema input"

definition validateOutput :: "json \<Rightarrow> error + json" where
  "validateOutput output = schema_parse AgentOutputSchema output"

section \<open>The Human Design agent\<close>

record agent =
  name :: string
  description :: string
  frameworks :: "string list"

definition HumanDesignAgent :: agent where
  "HumanDesignAgent =
     \<lparr>name = ''Human Design Calculator'',
      description = ''Calculates Human Design chart from birth data with AI-driven interpretation'',
      frameworks = [''human-design'', ''gene-keys'', ''i-ching'']\<rparr>"

record planet_position =
  planet :: string
  longitude :: real

text \<open>The positions are the fixed table of the source, each longitude the double its
  literal denotes; the birth data is not read.\<close>

definition calculatePlanetaryPositions :: "json \<Rightarrow> planet_position list" where
  "calculatePlanetaryPositions birthData =
     [\<lparr>planet = ''Sun'', longitude = fl 120.5\<rparr>,
      \<lparr>planet = ''Earth'', longitude = fl 300.5\<rparr>,
      \<lparr>planet = ''Moon'', longitude = fl 45.2\<rparr>,
      \<lparr>planet = ''Mercury'', longitude = fl 110.8\<rparr>,
      \<lparr>planet = ''Venus'', longitude = fl 95.3\<rparr>,
      \<lparr>planet = ''Mars'', longitude = fl 200.7\<rparr>,
      \<lparr>planet = ''Jupiter'', longitude = fl 150.4\<rparr>,
      \<lparr>planet = ''Saturn'', longitude = fl 275.9\<rparr>,
      \<lparr>planet = ''Uranus'', longitude = fl 330.1\<rparr>,
      \<lparr>planet = ''Neptune'', longitude = fl 60.6\<rparr>,
      \<lparr>planet = ''Pluto'', longitude = fl 180.2\<rparr>]"

record gate_line =
  gate :: int
  line :: int

definition degreesPerGate :: real where
  "degreesPerGate = fl (360 / 64)"

text \<open>The remainder operator \<open>%\<close> on numbers: the quotient is truncated towards zero, so
  the result has the sign of the dividend. The remainder of two doubles is a double, so
  the operator does not round. The only divisor in the source is \<open>degreesPerGate\<close>, which
  is not zero.\<close>

definition js_rem :: "real \<Rightarrow> real \<Rightarrow> real" where
  "js_rem x y = x - y * of_int (if 0 \<le> x / y then \<lfloor>x / y\<rfloor> else \<lceil>x / y\<rceil>)"

text \<open>\<open>Math.floor\<close> of a double is an integer, and adding 1 to an integer below
  \<open>2 ^ 53\<close> is exact: gate and line are integers.\<close>

definition longitudeToGate :: "real \<Rightarrow> gate_line" where
  "longitudeToGate lng =
     (let gateNumber = \<lfloor>fl (lng / degreesPerGate)\<rfloor> + 1;
          lineNumber = \<lfloor>fl (fl (js_rem lng degreesPerGate / degreesPerGate) * 6)\<rfloor> + 1
      in \<lparr>gate = gateNumber, line = lineNumber\<rparr>)"

definition centerMapping :: "(string \<times> int list) list" where
  "centerMapping =
     [(''Head'', [61, 63, 64]),
      (''Ajna'', [47, 24, 4, 17, 43, 11]),
      (''Throat'', [62, 23, 56, 35, 12, 45, 33, 8, 31, 20, 16]),
      (''G Center'', [7, 1, 13, 10, 15, 46, 25, 51]),
      (''Sacral'', [5, 14, 29, 59, 9, 3, 42, 27, 34]),
      (''Solar Plexus'', [6, 37, 22, 36, 30, 55, 49]),
      (''Spleen'', [48, 57, 44, 50, 32, 28, 18]),
      (''Heart/Ego'', [21, 40, 26, 51]),
      (''Root'', [52, 53, 54, 38, 39, 41, 19, 58, 60])]"

text \<open>A \<open>Set\<close> of strings is the list of its elements in insertion order.\<close>

definition set_add :: "'a list \<Rightarrow> 'a \<Rightarrow> 'a list" where
  "set_add s x = (if List.member s x then s else s @ [x])"

record centers =
  definedCenters :: "string list"
  undefinedCenters :: "string list"

text \<open>\<open>gates.some((gate) => centerGates.includes(gate))\<close>\<close>

definition center_hit :: "int list \<Rightarrow> int list \<Rightarrow> bool" where
  "center_hit gates centerGates = list_ex (\<lambda>g. List.member centerGates g) gates"

definition determineCenters :: "int list \<Rightarrow> centers" where
  "determineCenters gates =
     (let defined = foldl (\<lambda>d (center, centerGates).
                       if center_hit gates centerGates then set_add d center else d)
                     [] centerMapping;
          allCenters = map fst centerMapping;
          undefined = filter (\<lambda>c. \<not> List.member defined c) allCenters
      in \<lparr>definedCenters = defined, undefinedCenters = undefined\<rparr>)"

definition nineCenters :: "string list" where
  "nineCenters = [''Head'', ''Ajna'', ''Throat'', ''G Center'', ''Sacral'', ''Solar Plexus'',
                  ''Spleen'', ''Heart/Ego'', ''Root'']"

record type_info =
  type :: string
  strategy :: string
  authority :: string

definition determineType :: "string list \<Rightarrow> type_info" where
  "determineType defined =
     (let hasSacral = List.member defined ''Sacral'';
          hasThroat = List.member defined ''Throat'';
          hasHeart = List.member defined ''Heart/Ego'';
          hasSolarPlexus = List.member defined ''Solar Plexus''
      in if length defined = 0 then
           \<lparr>type = ''Reflector'', strategy = ''Wait 28 days (lunar cycle)'',
            authority = ''Lunar Authority''\<rparr>
         else if hasSacral \<and> hasThroat then
           \<lparr>type = ''Manifesting Generator'', strategy = ''Respond & Inform'',
            authority = (if hasSolarPlexus then ''Emotional Authority'' else ''Sacral Authority'')\<rparr>
         else if hasSacral then
           \<lparr>type = ''Generator'', strategy = ''Wait to Respond'',
            authority = (if hasSolarPlexus then ''Emotional Authority'' else ''Sacral Authority'')\<rparr>
         else if hasThroat \<and> (hasHeart \<or> List.member defined ''G Center'') then
           \<lparr>type = ''Manifestor'', strategy = ''Inform before acting'',
            authority = (if hasSolarPlexus then ''Emotional Authority'' else ''Splenic Authority'')\<rparr>
         else
           \<lparr>type = ''Projector'', strategy = ''Wait for Invitation'',
            authority = (if hasSolarPlexus then ''Emotional Authority''
                         else if List.member defined ''Spleen'' then ''Splenic Authority''
                         else ''Self-Projected Authority'')\<rparr>)"

subsection \<open>Strings\<close>

definition nl :: string where
  "nl = [CHR 0x0A]"

text \<open>The arrow U+2192 of the correlation strings, in UTF-8.\<close>

definition arrow :: string where
  "arrow = [CHR 0xE2, CHR 0x86, CHR 0x92]"

text \<open>A template literal renders an integer-valued number in decimal.\<close>

fun digits :: "nat \<Rightarrow> string" where
  "digits n = (if n < 10 then [char_of (48 + n)] else digits (n div 10) @ [char_of (48 + n mod 10)])"

definition numberToString :: "int \<Rightarrow> string" where
  "numberToString i = (if i < 0 then ''-'' @ digits (nat (- i)) else digits (nat i))"

fun join :: "string \<Rightarrow> string list \<Rightarrow> string" where
  "join sep [] = []"
| "join sep [x] = x"
| "join sep (x # y # ys) = x @ sep @ join sep (y # ys)"

definition is_space :: "char \<Rightarrow> bool" where
  "is_space c = (c = CHR '' '' \<or> ((9::nat) \<le> of_char c \<and> of_char c \<le> (13::nat)))"

definition trim :: "string \<Rightarrow> string" where
  "trim s = rev (dropWhile is_space (rev (dropWhile is_space s)))"

text \<open>
  \<open>JSON.stringify\<close> throws a \<open>TypeError\<close> when it meets a BigInt, whether as the value
  itself, as an element of an array or as the value of a property. The text it produces
  otherwise is a parameter \<open>txt\<close> of the functions that call it: no property below
  depends on it.
\<close>

fun serialisable :: "json \<Rightarrow> bool" where
  "serialisable (JBigInt i) = False"
| "serialisable (JArr xs) = list_all serialisable xs"
| "serialisable (JObj kvs) = list_all (\<lambda>kv. serialisable (snd kv)) kvs"
| "serialisable v = True"

definition JSON_stringify :: "(json \<Rightarrow> string) \<Rightarrow> json \<Rightarrow> error + string" where
  "JSON_stringify txt v =
     (if serialisable v then Inr (txt v)
      else Inl TypeError)"

subsection \<open>The chart\<close>

record gate_entry = gate_line +
  gate_planet :: string
  design :: bool

record HumanDesignChart =
  chart_type :: string
  chart_strategy :: string
  chart_authority :: string
  profile :: string
  chart_definedCenters :: "string list"
  chart_undefinedCenters :: "string list"
  chart_gates :: "gate_entry list"
  channels :: "(string \<times> (int \<times> int) \<times> bool) list"
  incarnationCross :: string

definition gate_json :: "gate_entry \<Rightarrow> json" where
  "gate_json g =
     JObj [(''gate'', JNum (of_int (gate g))), (''line'', JNum (of_int (line g))),
           (''planet'', JStr (gate_planet g)), (''design'', JBool (design g))]"

definition channel_json :: "string \<times> (int \<times> int) \<times> bool \<Rightarrow> json" where
  "channel_json c =
     (case c of (ch, (a, b), d) \<Rightarrow>
        JObj [(''channel'', JStr ch), (''gates'', JArr [JNum (of_int a), JNum (of_int b)]),
              (''defined'', JBool d)])"

definition chart_json :: "HumanDesignChart \<Rightarrow> json" where
  "chart_json c =
     JObj [(''type'', JStr (chart_type c)),
           (''strategy'', JStr (chart_strategy c)),
           (''authority'', JStr (chart_authority c)),
           (''profile'', JStr (profile c)),
           (''definedCenters'', JArr (map JStr (chart_definedCenters c))),
           (''undefinedCenters'', JArr (map JStr (chart_undefinedCenters c))),
           (''gates'', JArr (map gate_json (chart_gates c))),
           (''channels'', JArr (map channel_json (channels c))),
           (''incarnationCross'', JStr (incarnationCross c))]"

text \<open>A string property in a template literal; the two places that interpolate a
  property of the context do so only when it is truthy, and the validated context holds
  a string there.\<close>

fun str_of :: "json \<Rightarrow> string" where
  "str_of (JStr s) = s"
| "str_of v = []"

definition generateInterpretationPrompt ::
  "(json \<Rightarrow> string) \<Rightarrow> HumanDesignChart \<Rightarrow> json \<Rightarrow> error + string" where
  "generateInterpretationPrompt txt c ctx =
     (case (if truthy (get ctx ''healthMetrics'')
            then (case JSON_stringify txt (get ctx ''healthMetrics'') of
                    Inl e \<Rightarrow> Inl e
                  | Inr t \<Rightarrow> Inr (''Health Data: '' @ t))
            else Inr []) of
        Inl e \<Rightarrow> Inl e
      | Inr health \<Rightarrow>
          Inr (trim
            (nl @ ''You are a Human Design expert providing personalized, somatic insights.'' @ nl
             @ nl
             @ ''## User'' @ [CHR 0x27] @ ''s Chart'' @ nl
             @ ''- Type: '' @ chart_type c @ nl
             @ ''- Strategy: '' @ chart_strategy c @ nl
             @ ''- Authority: '' @ chart_authority c @ nl
             @ ''- Profile: '' @ profile c @ nl
             @ ''- Defined Centers: '' @ join '', '' (chart_definedCenters c) @ nl
             @ ''- Undefined Centers: '' @ join '', '' (chart_undefinedCenters c) @ nl
             @ ''- Key Gates: ''
                 @ join '', '' (map (\<lambda>g. numberToString (gate g) @ ''.'' @ numberToString (line g))
                                  (take 3 (chart_gates c))) @ nl
             @ nl
             @ ''## Context'' @ nl
             @ (if truthy (get ctx ''userQuery'')
                then ''User Query: '' @ str_of (get ctx ''userQuery'')
                else ''Provide overview'') @ nl
             @ health @ nl
             @ nl
             @ ''## Instructions'' @ nl
             @ ''1. Explain their '' @ chart_type c @ '' nature with empathy and somatic grounding'' @ nl
             @ ''2. Connect undefined centers to where they may absorb energy from others'' @ nl
             @ ''3. Relate strategy to practical daily scenarios'' @ nl
             @ ''4. If health data present, correlate with HD centers (e.g., undefined Root = rest needs)'' @ nl
             @ ''5. Use trauma-informed language; balance light/shadow aspects'' @ nl
             @ ''6. End with one actionable somatic practice aligned with their design'' @ nl
             @ nl
             @ ''Keep response conversational, embodied, and empowering.'' @ nl
             @ ''    '')))"

subsection \<open>Execution\<close>

definition to_gate :: "bool \<Rightarrow> planet_position \<Rightarrow> gate_entry" where
  "to_gate d p =
     \<lparr>gate = gate (longitudeToGate (longitude p)), line = line (longitudeToGate (longitude p)),
      gate_planet = planet p, design = d\<rparr>"

text \<open>
  \<open>execute\<close>, with the receiver \<open>self\<close> passed explicitly. The table of positions has
  eleven rows, so \<open>personalityGates\<close> has five entries and the reads at index 0 and 1
  are in range.
\<close>

definition execute :: "(json \<Rightarrow> string) \<Rightarrow> agent \<Rightarrow> json \<Rightarrow> error + json" where
  "execute txt self input =
     (case validateInput input of
        Inl e \<Rightarrow> Inl e
      | Inr validated \<Rightarrow>
          if \<not> truthy (get (get validated ''context'') ''birthData'')
          then Inl (Error ''Birth data required for Human Design calculation'')
          else
            (let planets = calculatePlanetaryPositions (get (get validated ''context'') ''birthData'');
                 personalityGates = map (to_gate False) (take 5 planets);
                 designGates = map (to_gate True) (drop 5 planets);
                 allGates = personalityGates @ designGates;
                 gateNumbers = map gate allGates;
                 cs = determineCenters gateNumbers;
                 t = determineType (definedCenters cs);
                 sunGate = personalityGates ! 0;
                 earthGate = personalityGates ! 1;
                 prof = numberToString (line sunGate) @ ''/'' @ numberToString (line earthGate);
                 chart = \<lparr>chart_type = type t, chart_strategy = strategy t,
                          chart_authority = authority t, profile = prof,
                          chart_definedCenters = definedCenters cs,
                          chart_undefinedCenters = undefinedCenters cs,
                          chart_gates = allGates, channels = [],
                          incarnationCross = ''Right Angle Cross of '' @ numberToString (gate sunGate)
                            @ ''/'' @ numberToString (gate earthGate)\<rparr>
             in case generateInterpretationPrompt txt chart (get validated ''context'') of
                  Inl e \<Rightarrow> Inl e
                | Inr interpretationSeed \<Rightarrow>
                    validateOutput
                      (JObj [(''calculation'', chart_json chart),
                             (''correlations'', JArr (map JStr
                                ([''Gate '' @ numberToString (gate sunGate) @ '' '' @ arrow
                                    @ '' I Ching Hexagram '' @ numberToString (gate sunGate),
                                  ''Gate '' @ numberToString (gate sunGate) @ '' '' @ arrow
                                    @ '' Gene Key '' @ numberToString (gate sunGate)]
                                 @ map (\<lambda>c. c @ '' Center '' @ arrow @ '' Chakra correlation'')
                                     (definedCenters cs)))),
                             (''interpretationSeed'', JStr interpretationSeed),
                             (''method'', JStr ''astronomical-calculation''),
                             (''confidence'', JNum (fl 0.95))])))"

section \<open>Vocabulary of the properties\<close>

text \<open>The issue that the schema library raises for a required string property that is
  not there: it carries the name of the property as its path.\<close>

definition missing :: "string \<Rightarrow> issue" where
  "missing k = \<lparr>code = invalid_type t_string t_undefined, path = [Key k]\<rparr>"

text \<open>The type \<open>AgentInput\<close> that the schema infers, and the plain object that a value
  of the type is: an optional property that is not set is not a key of the object.\<close>

record BirthData =
  bd_date :: string
  bd_time :: string
  bd_latitude :: real
  bd_longitude :: real

record AgentContext =
  ctx_birthData :: "BirthData option"
  ctx_healthMetrics :: "(string \<times> json) list option"
  ctx_journalThemes :: "string list option"
  ctx_userQuery :: "string option"

record AgentInput =
  in_framework :: string
  in_context :: AgentContext

definition encode_birthData :: "BirthData \<Rightarrow> json" where
  "encode_birthData b =
     JObj [(''date'', JStr (bd_date b)), (''time'', JStr (bd_time b)),
           (''location'', JObj [(''latitude'', JNum (bd_latitude b)),
                                (''longitude'', JNum (bd_longitude b))])]"

fun opt_prop :: "string \<Rightarrow> json option \<Rightarrow> (string \<times> json) list" where
  "opt_prop k None = []"
| "opt_prop k (Some v) = [(k, v)]"

definition encode_context :: "AgentContext \<Rightarrow> json" where
  "encode_context c =
     JObj (opt_prop ''birthData'' (map_option encode_birthData (ctx_birthData c))
         @ opt_prop ''healthMetrics'' (map_option JObj (ctx_healthMetrics c))
         @ opt_prop ''journalThemes'' (map_option (\<lambda>ts. JArr (map JStr ts)) (ctx_journalThemes c))
         @ opt_prop ''userQuery'' (map_option JStr (ctx_userQuery c)))"

definition encodeInput :: "AgentInput \<Rightarrow> json" where
  "encodeInput r = JObj [(''framework'', JStr (in_framework r)), (''context'', encode_context (in_context r))]"

text \<open>What validation returns for a value of the type: the same value, with the health
  metrics short of a property \<open>__proto__\<close>. A request is \<open>proto_free\<close> when its health
  metrics have no such property.\<close>

definition as_validated :: "AgentInput \<Rightarrow> AgentInput" where
  "as_validated r =
     r\<lparr>in_context := (in_context r)
          \<lparr>ctx_healthMetrics := map_option without_proto (ctx_healthMetrics (in_context r))\<rparr>\<rparr>"

definition proto_free :: "AgentInput \<Rightarrow> bool" where
  "proto_free r =
     (case ctx_healthMetrics (in_context r) of
        None \<Rightarrow> True
      | Some h \<Rightarrow> \<not> List.member (map fst h) ''__proto__'')"

fun drop_proto :: "json \<Rightarrow> json" where
  "drop_proto (JObj kvs) = JObj (without_proto kvs)"
| "drop_proto v = v"

text \<open>A request with all four optional properties.\<close>

definition full_request :: AgentInput where
  "full_request =
     \<lparr>in_framework = ''human-design'',
      in_context = \<lparr>ctx_birthData = Some \<lparr>bd_date = ''1990-05-17'', bd_time = ''08:30'',
                                           bd_latitude = - 33.875, bd_longitude = 151.25\<rparr>,
                    ctx_healthMetrics = Some [(''steps'', JNum 8021), (''sleep'', JStr ''7h'')],
                    ctx_journalThemes = Some [''rest'', ''focus''],
                    ctx_userQuery = Some ''hello''\<rparr>\<rparr>"

text \<open>A request that carries a map of upstream results in its context, and a response
  whose \<open>interpretationSeed\<close> is the empty string.\<close>

definition upstream_request :: json where
  "upstream_request =
     JObj [(''framework'', JStr ''human-design''),
           (''context'', JObj [(''userQuery'', JStr ''hello''),
                               (''upstream'', JObj [(''astrology'',
                                   JObj [(''interpretationSeed'', JStr ''seed''),
                                         (''method'', JStr ''deterministic'')])])])]"

text \<open>A request whose health metrics have a property \<open>__proto__\<close> of their own, as
  \<open>JSON.parse\<close> makes one.\<close>

definition proto_request :: json where
  "proto_request =
     JObj [(''framework'', JStr ''human-design''),
           (''context'', JObj [(''healthMetrics'', JObj [(''__proto__'', JNum 1), (''steps'', JNum 2)])])]"

definition empty_seed_response :: json where
  "empty_seed_response =
     JObj [(''interpretationSeed'', JStr ''''), (''method'', JStr ''astronomical-calculation'')]"

text \<open>
  The fields of a request, read off \<open>AgentInputSchema\<close>: the path of each, whether it is
  required, and the type the schema asks for. A field is violated in a raw input when
  the object that should hold it is there and the field is missing though required, or
  holds a value of another type. The elements of \<open>journalThemes\<close> are fields too, one
  for each index. \<open>value_at\<close> reads the value at a path.
\<close>

fun value_at :: "json \<Rightarrow> seg list \<Rightarrow> json" where
  "value_at v [] = v"
| "value_at v (Key k # p) = value_at (get v k) p"
| "value_at v (Index i # p) =
     (case v of JArr xs \<Rightarrow> (if i < length xs then value_at (xs ! i) p else JUndefined)
      | _ \<Rightarrow> JUndefined)"

definition AgentInput_fields :: "(seg list \<times> bool \<times> parsed_type) list" where
  "AgentInput_fields =
     [([Key ''framework''], True, t_string),
      ([Key ''context''], True, t_object),
      ([Key ''context'', Key ''birthData''], False, t_object),
      ([Key ''context'', Key ''birthData'', Key ''date''], True, t_string),
      ([Key ''context'', Key ''birthData'', Key ''time''], True, t_string),
      ([Key ''context'', Key ''birthData'', Key ''location''], True, t_object),
      ([Key ''context'', Key ''birthData'', Key ''location'', Key ''latitude''], True, t_number),
      ([Key ''context'', Key ''birthData'', Key ''location'', Key ''longitude''], True, t_number),
      ([Key ''context'', Key ''healthMetrics''], False, t_object),
      ([Key ''context'', Key ''journalThemes''], False, t_array),
      ([Key ''context'', Key ''userQuery''], False, t_string)]"

definition violated :: "json \<Rightarrow> seg list \<times> bool \<times> parsed_type \<Rightarrow> bool" where
  "violated raw f =
     (case f of (p, required, ty) \<Rightarrow>
        getParsedType (value_at raw (butlast p)) = t_object \<and>
        (required \<or> value_at raw p \<noteq> JUndefined) \<and>
        getParsedType (value_at raw p) \<noteq> ty)"

definition field_issue :: "json \<Rightarrow> seg list \<times> bool \<times> parsed_type \<Rightarrow> issue" where
  "field_issue raw f =
     (case f of (p, required, ty) \<Rightarrow>
        \<lparr>code = invalid_type ty (getParsedType (value_at raw p)), path = p\<rparr>)"

definition theme_violated :: "json \<Rightarrow> nat \<Rightarrow> bool" where
  "theme_violated raw i =
     (case value_at raw [Key ''context'', Key ''journalThemes''] of
        JArr xs \<Rightarrow> i < length xs \<and> getParsedType (xs ! i) \<noteq> t_string
      | _ \<Rightarrow> False)"

definition theme_issue :: "json \<Rightarrow> nat \<Rightarrow> issue" where
  "theme_issue raw i =
     \<lparr>code = invalid_type t_string
               (getParsedType (value_at raw [Key ''context'', Key ''journalThemes'', Index i])),
      path = [Key ''context'', Key ''journalThemes'', Index i]\<rparr>"

text \<open>A raw input with a number as \<open>framework\<close> and a string as the latitude.\<close>

definition two_violations :: json where
  "two_violations =
     JObj [(''framework'', JNum 7),
           (''context'', JObj [(''birthData'',
              JObj [(''date'', JStr ''1990-05-17''), (''time'', JStr ''08:30''),
                    (''location'', JObj [(''latitude'', JStr ''north''),
                                         (''longitude'', JNum 151.25)])])])]"

text \<open>The nested object schemas of \<open>AgentInputSchema\<close>, by name.\<close>

definition locationSchema :: schema where
  "locationSchema = ZObject [(''latitude'', ZNumber []), (''longitude'', ZNumber [])]"

definition birthDataSchema :: schema where
  "birthDataSchema = ZObject [(''date'', ZString), (''time'', ZString), (''location'', locationSchema)]"

definition contextSchema :: schema where
  "contextSchema = ZObject
           [(''birthData'', ZOptional birthDataSchema),
            (''healthMetrics'', ZOptional (ZRecord ZString ZAny)),
            (''journalThemes'', ZOptional (ZArray ZString)),
            (''userQuery'', ZOptional ZString)]"

text \<open>
  Closed examples: a rendering to pass for the text of \<open>JSON.stringify\<close> (no example
  reaches it), birth data, and four requests: the unregistered framework \<open>alpha\<close> without
  and with birth data, a request whose health metrics hold a BigInt, and a plain request
  with birth data.
\<close>

definition no_text :: "json \<Rightarrow> string" where
  "no_text v = []"

definition sample_birthData :: json where
  "sample_birthData =
     JObj [(''date'', JStr ''1990-05-17''), (''time'', JStr ''08:30''),
           (''location'', JObj [(''latitude'', JNum (-33.875)), (''longitude'', JNum 151.25)])]"

definition alpha_request :: json where
  "alpha_request =
     JObj [(''framework'', JStr ''alpha''), (''context'', JObj [(''userQuery'', JStr ''hello'')])]"

definition alpha_birth_request :: json where
  "alpha_birth_request =
     JObj [(''framework'', JStr ''alpha''),
           (''context'', JObj [(''birthData'', sample_birthData), (''userQuery'', JStr ''hello'')])]"

definition bigint_request :: json where
  "bigint_request =
     JObj [(''framework'', JStr ''human-design''),
           (''context'', JObj [(''birthData'', sample_birthData),
                               (''healthMetrics'', JObj [(''steps'', JBigInt 10)])])]"

definition birth_request :: json where
  "birth_request =
     JObj [(''framework'', JStr ''human-design''),
           (''context'', JObj [(''birthData'', sample_birthData)])]"

section \<open>Centers\<close>

lemma defined_fold:
  "distinct (map fst m) \<Longrightarrow> set acc \<inter> fst ` set m = {} \<Longrightarrow>
   foldl (\<lambda>d (center, centerGates).
            if center_hit gates centerGates then set_add d center else d) acc m
   = acc @ map fst (filter (\<lambda>(c, gs). center_hit gates gs) m)"
proof (induction m arbitrary: acc)
  case Nil
  then show ?case by simp
next
  case (Cons a m)
  obtain c gs where a: "a = (c, gs)" by (cases a)
  show ?case
  proof (cases "center_hit gates gs")
    case True
    have "c \<notin> set acc" using Cons.prems a by auto
    then have sa: "set_add acc c = acc @ [c]" by (simp add: set_add_def)
    have "set (acc @ [c]) \<inter> fst ` set m = {}" using Cons.prems a by auto
    moreover have "distinct (map fst m)" using Cons.prems by simp
    ultimately show ?thesis using Cons.IH[of "acc @ [c]"] True a sa by simp
  next
    case False
    have "set acc \<inter> fst ` set m = {}" using Cons.prems by auto
    moreover have "distinct (map fst m)" using Cons.prems by simp
    ultimately show ?thesis using Cons.IH[of acc] False a by simp
  qed
qed

lemma distinct_centers: "distinct (map fst centerMapping)"
  by (simp add: centerMapping_def)

lemma determineCenters_filter:
  "definedCenters (determineCenters gates) =
     map fst (filter (\<lambda>(c, gs). center_hit gates gs) centerMapping)"
  "undefinedCenters (determineCenters gates) =
     map fst (filter (\<lambda>(c, gs). \<not> center_hit gates gs) centerMapping)"
proof -
  let ?d = "map fst (filter (\<lambda>(c, gs). center_hit gates gs) centerMapping)"
  have d: "foldl (\<lambda>d (center, centerGates).
            if center_hit gates centerGates then set_add d center else d) [] centerMapping = ?d"
    using defined_fold[OF distinct_centers, of "[]" gates] by simp
  show "definedCenters (determineCenters gates) = ?d"
    by (simp add: determineCenters_def Let_def d)
  have und: "filter (\<lambda>c. c \<notin> set (map fst (filter (\<lambda>(c, gs). center_hit gates gs) m))) (map fst m)
     = map fst (filter (\<lambda>(c, gs). \<not> center_hit gates gs) m)"
    if dm: "distinct (map fst m)" for m :: "(string \<times> int list) list"
  proof -
    let ?D = "set (map fst (filter (\<lambda>(c, gs). center_hit gates gs) m))"
    have "(fst x \<notin> ?D) = (case x of (c, gs) \<Rightarrow> \<not> center_hit gates gs)" if "x \<in> set m" for x
    proof (cases x)
      case (Pair c gs)
      show ?thesis
      proof (cases "center_hit gates gs")
        case True
        then have "c \<in> ?D" using that Pair by force
        then show ?thesis using True Pair by simp
      next
        case False
        have "c \<notin> ?D"
        proof
          assume "c \<in> ?D"
          then obtain gs' where "(c, gs') \<in> set m" "center_hit gates gs'" by auto
          moreover have "gs' = gs"
            using eq_key_imp_eq_value[OF dm \<open>(c, gs') \<in> set m\<close>] that Pair by simp
          ultimately show False using False by simp
        qed
        then show ?thesis using False Pair by simp
      qed
    qed
    then have "filter ((\<lambda>c. c \<notin> ?D) \<circ> fst) m = filter (\<lambda>(c, gs). \<not> center_hit gates gs) m"
      by (intro filter_cong) auto
    then show ?thesis by (simp add: filter_map)
  qed
  from und[OF distinct_centers]
  show "undefinedCenters (determineCenters gates) =
     map fst (filter (\<lambda>(c, gs). \<not> center_hit gates gs) centerMapping)"
    by (simp add: determineCenters_def Let_def d)
qed

lemma centerMapping_keys: "map fst centerMapping = nineCenters"
  by (simp add: centerMapping_def nineCenters_def)

text \<open>
  C9. For every list of gate numbers, the two lists that \<open>determineCenters\<close> returns
  partition the nine center names: neither list has a duplicate, no center is in both,
  and together they hold exactly Head, Ajna, Throat, G Center, Sacral, Solar Plexus,
  Spleen, Heart/Ego and Root.
\<close>

theorem determineCenters_partition:
  "distinct (definedCenters (determineCenters gates)) \<and>
   distinct (undefinedCenters (determineCenters gates)) \<and>
   set (definedCenters (determineCenters gates)) \<inter>
     set (undefinedCenters (determineCenters gates)) = {} \<and>
   set (definedCenters (determineCenters gates)) \<union>
     set (undefinedCenters (determineCenters gates)) = set nineCenters"
proof -
  have dm: "distinct (map fst centerMapping)" by (rule distinct_centers)
  have 1: "distinct (definedCenters (determineCenters gates))"
    unfolding determineCenters_filter using dm by (rule distinct_map_filter)
  have 2: "distinct (undefinedCenters (determineCenters gates))"
    unfolding determineCenters_filter using dm by (rule distinct_map_filter)
  have 3: "set (definedCenters (determineCenters gates)) \<inter>
             set (undefinedCenters (determineCenters gates)) = {}"
    unfolding determineCenters_filter using dm by (auto dest: eq_key_imp_eq_value)
  have "set (definedCenters (determineCenters gates)) \<union>
          set (undefinedCenters (determineCenters gates)) = set (map fst centerMapping)"
    unfolding determineCenters_filter by force
  then show ?thesis using 1 2 3 by (simp add: centerMapping_keys)
qed

section \<open>Rounding to doubles\<close>

lemma round_even_le: "y \<le> of_int N \<Longrightarrow> round_even y \<le> N"
proof -
  assume a: "y \<le> of_int N"
  then have f: "\<lfloor>y\<rfloor> \<le> N" by (metis floor_mono floor_of_int)
  show ?thesis
  proof (cases "\<lfloor>y\<rfloor> = N")
    case True
    then have "of_int N \<le> y" using of_int_floor_le[of y] by simp
    then have "y - of_int \<lfloor>y\<rfloor> = 0" using a True by simp
    then show ?thesis using True by (simp add: round_even_def Let_def)
  next
    case False
    then have "\<lfloor>y\<rfloor> + 1 \<le> N" using f by simp
    then show ?thesis by (simp add: round_even_def Let_def)
  qed
qed

lemma round_even_lt: "y < of_int N - 1 / 2 \<Longrightarrow> round_even y \<le> N - 1"
proof -
  assume a: "y < of_int N - 1 / 2"
  then have "y < of_int N" by simp
  then have f: "\<lfloor>y\<rfloor> \<le> N - 1" by (simp add: floor_less_iff)
  show ?thesis
  proof (cases "\<lfloor>y\<rfloor> = N - 1")
    case True
    then have "y - of_int \<lfloor>y\<rfloor> < 1 / 2" using a by simp
    then show ?thesis using True by (simp add: round_even_def Let_def)
  next
    case False
    then have "\<lfloor>y\<rfloor> + 1 \<le> N - 1" using f by simp
    then show ?thesis by (simp add: round_even_def Let_def)
  qed
qed

lemma round_even_nonneg: "0 \<le> y \<Longrightarrow> 0 \<le> round_even y"
proof -
  assume "0 \<le> y"
  then have "0 \<le> \<lfloor>y\<rfloor>" by simp
  then show ?thesis by (simp add: round_even_def Let_def)
qed

lemma round_even_of_int: "round_even (of_int k) = k"
  by (simp add: round_even_def Let_def)

lemma expo_search_spec:
  "0 < x \<Longrightarrow> x < 2 powi (int k - 1021) \<Longrightarrow>
     - 1022 \<le> expo_search k x \<and> x < 2 powi (expo_search k x + 1) \<and>
     (expo_search k x = - 1022 \<or> 2 powi (expo_search k x) \<le> x)"
proof (induction k)
  case 0
  then show ?case by simp
next
  case (Suc k)
  show ?case
  proof (cases "2 powi (int k - 1021) \<le> x")
    case True
    have "int k - 1021 + 1 = int (Suc k) - 1021" by simp
    then have "x < 2 powi (int k - 1021 + 1)" using Suc.prems(2) by simp
    then show ?thesis using True by simp
  next
    case False
    then have "x < 2 powi (int k - 1021)" by simp
    from Suc.IH[OF Suc.prems(1) this] False show ?thesis by simp
  qed
qed

lemma expo_spec:
  assumes "0 < x" and "x < 2 powi 1024"
  shows "- 1022 \<le> expo x \<and> x < 2 powi (expo x + 1) \<and> (expo x = - 1022 \<or> 2 powi (expo x) \<le> x)"
proof -
  have "x < 2 powi (int 2045 - 1021)" using assms(2) by simp
  from expo_search_spec[OF assms(1) this] show ?thesis by (simp add: expo_def)
qed

lemma pow2_less_imp: "(2::real) powi a < 2 powi b \<Longrightarrow> a < b"
proof (rule ccontr)
  assume l: "(2::real) powi a < 2 powi b" and "\<not> a < b"
  then have "b \<le> a" by simp
  then have "(2::real) powi b \<le> 2 powi a" by (intro power_int_increasing) simp_all
  with l show False by simp
qed

lemma pow2_pos: "0 < (2::real) powi a"
  by (simp add: zero_less_power_int)

lemma expo_eq:
  assumes "- 1022 \<le> n" and "n \<le> 1023" and "2 powi n \<le> x" and "x < 2 powi (n + 1)"
  shows "expo x = n"
proof -
  have x0: "0 < x" using assms(3) pow2_pos[of n] by linarith
  have "(2::real) powi (n + 1) \<le> 2 powi 1024" using assms(2) by (intro power_int_increasing) simp_all
  then have "x < 2 powi 1024" using assms(4) by linarith
  from expo_spec[OF x0 this]
  have lo: "- 1022 \<le> expo x" and up: "x < 2 powi (expo x + 1)"
    and dn: "expo x = - 1022 \<or> 2 powi (expo x) \<le> x" by simp_all
  have "(2::real) powi n < 2 powi (expo x + 1)" using assms(3) up by linarith
  then have 1: "n \<le> expo x" using pow2_less_imp by fastforce
  from dn have "expo x \<le> n"
  proof
    assume "expo x = - 1022"
    then show ?thesis using assms(1) by simp
  next
    assume "2 powi (expo x) \<le> x"
    then have "(2::real) powi (expo x) < 2 powi (n + 1)" using assms(4) by linarith
    then show ?thesis using pow2_less_imp by fastforce
  qed
  with 1 show ?thesis by simp
qed

lemma fl_normal:
  assumes "- 1022 \<le> n" and "n \<le> 1023" and "2 powi n \<le> x" and "x < 2 powi (n + 1)"
  shows "fl x = of_int (round_even (x / 2 powi (n - 52))) * 2 powi (n - 52)"
proof -
  have x0: "0 < x" using assms(3) pow2_pos[of n] by linarith
  have e: "expo x = n" using expo_eq[OF assms] by simp
  show ?thesis using x0 by (simp add: fl_def e Let_def)
qed

lemma fl_nonneg: "0 \<le> x \<Longrightarrow> 0 \<le> fl x"
proof (cases "x = 0")
  case True
  then show ?thesis by (simp add: fl_def)
next
  case False
  assume "0 \<le> x"
  then have x0: "0 < x" using False by simp
  have "0 \<le> x / 2 powi (expo x - 52)" using x0 pow2_pos[of "expo x - 52"] by simp
  then have "0 \<le> round_even (x / 2 powi (expo x - 52))" by (rule round_even_nonneg)
  then show ?thesis using x0 pow2_pos[of "expo x - 52"] by (simp add: fl_def Let_def)
qed

lemma fl_le_pow:
  assumes "0 \<le> x" and "x < 2 powi m" and "- 1021 \<le> m" and "m \<le> 1024"
  shows "fl x \<le> 2 powi m"
proof (cases "x = 0")
  case True
  then show ?thesis using pow2_pos[of m] by (simp add: fl_def)
next
  case False
  then have x0: "0 < x" using assms(1) by simp
  have "(2::real) powi m \<le> 2 powi 1024" using assms(4) by (intro power_int_increasing) simp_all
  then have "x < 2 powi 1024" using assms(2) by linarith
  from expo_spec[OF x0 this]
  have up: "x < 2 powi (expo x + 1)"
    and dn: "expo x = - 1022 \<or> 2 powi (expo x) \<le> x" by simp_all
  let ?e = "expo x"
  let ?u = "(2::real) powi (?e - 52)"
  have u0: "0 < ?u" by (rule pow2_pos)
  have split: "(2::real) powi (?e + 1) = 2 powi 53 * ?u"
    using power_int_add[of "2::real" 53 "?e - 52"] by (simp add: add.commute)
  have "x / ?u < 2 powi 53" using up u0 unfolding split by (simp add: field_simps)
  then have "x / ?u \<le> of_int (2 ^ 53)" by simp
  then have "round_even (x / ?u) \<le> 2 ^ 53" by (rule round_even_le)
  then have "(of_int (round_even (x / ?u)) :: real) \<le> of_int (2 ^ 53)" by (simp only: of_int_le_iff)
  then have "of_int (round_even (x / ?u)) * ?u \<le> 2 powi 53 * ?u"
    using u0 by simp
  then have le: "fl x \<le> 2 powi (?e + 1)" using x0 unfolding split by (simp add: fl_def Let_def)
  have "?e + 1 \<le> m"
  proof -
    from dn show ?thesis
    proof
      assume "?e = - 1022"
      then show ?thesis using assms(3) by simp
    next
      assume "2 powi ?e \<le> x"
      then have "(2::real) powi ?e < 2 powi m" using assms(2) by linarith
      then have "?e < m" by (rule pow2_less_imp)
      then show ?thesis by simp
    qed
  qed
  then have "(2::real) powi (?e + 1) \<le> 2 powi m" by (intro power_int_increasing) simp_all
  with le show ?thesis by linarith
qed

lemma double_grid:
  assumes "is_double l" and "- 1022 \<le> n" and "n \<le> 1023" and "2 powi n \<le> l" and "l < 2 powi (n + 1)"
  shows "\<exists>N::int. l = of_int N * 2 powi (n - 52)"
proof -
  have "fl l = l" using assms(1) by (simp add: is_double_def)
  then have "l = of_int (round_even (l / 2 powi (n - 52))) * 2 powi (n - 52)"
    using fl_normal[OF assms(2-5)] by simp
  then show ?thesis by blast
qed

section \<open>Gates and lines\<close>

lemma fl_upper:
  assumes "- 1022 \<le> n" and "n \<le> 1023" and "2 powi n \<le> x" and "x < 2 powi (n + 1)"
    and "x / 2 powi (n - 52) < of_int N - 1 / 2"
  shows "fl x \<le> of_int (N - 1) * 2 powi (n - 52)"
proof -
  have "round_even (x / 2 powi (n - 52)) \<le> N - 1" using assms(5) by (rule round_even_lt)
  then have "(of_int (round_even (x / 2 powi (n - 52))) :: real) \<le> of_int (N - 1)"
    by (simp only: of_int_le_iff)
  then have "of_int (round_even (x / 2 powi (n - 52))) * 2 powi (n - 52)
               \<le> of_int (N - 1) * (2::real) powi (n - 52)"
    using pow2_pos[of "n - 52"] by (simp only: mult_le_cancel_right_pos)
  then show ?thesis unfolding fl_normal[OF assms(1-4)] .
qed

lemma degreesPerGate_value: "degreesPerGate = 45 / 8"
proof -
  have "fl (360 / 64) = of_int (round_even ((360 / 64) / 2 powi (2 - 52))) * 2 powi (2 - 52)"
    by (rule fl_normal) simp_all
  also have "(360 / 64) / (2::real) powi (2 - 52) = of_int 6333186975989760" by simp
  also have "of_int (round_even (of_int 6333186975989760)) * (2::real) powi (2 - 52) = 45 / 8"
    unfolding round_even_of_int by simp
  finally show ?thesis by (simp only: degreesPerGate_def)
qed

lemma grid50:
  assumes "is_double l" and "4 \<le> l" and "l < 512"
  shows "\<exists>M::int. l = of_int M * 2 powi (- 50)"
proof -
  have step: "\<exists>M::int. l = of_int M * 2 powi (- 50)"
    if "2 \<le> n" and "n \<le> 8" and "2 powi n \<le> l" and "l < 2 powi (n + 1)" for n :: int
  proof -
    from double_grid[OF assms(1) _ _ that(3,4)] that(1,2)
    obtain N :: int where N: "l = of_int N * 2 powi (n - 52)" by auto
    have "(2::real) powi (n - 52) = 2 powi (n - 2) * 2 powi (- 50)"
      using power_int_add[of "2::real" "n - 2" "- 50"] by simp
    also have "(2::real) powi (n - 2) = of_int (2 ^ nat (n - 2))"
      using that(1) by (simp add: power_int_nonneg_exp)
    finally have "l = of_int (N * 2 ^ nat (n - 2)) * 2 powi (- 50)"
      using N by simp
    then show ?thesis by blast
  qed
  consider "l < 8" | "8 \<le> l" "l < 16" | "16 \<le> l" "l < 32" | "32 \<le> l" "l < 64"
    | "64 \<le> l" "l < 128" | "128 \<le> l" "l < 256" | "256 \<le> l" by linarith
  then show ?thesis
  proof cases
    case 1
    show ?thesis using assms(2) 1 by (intro step[of 2]) simp_all
  next
    case 2
    then show ?thesis by (intro step[of 3]) simp_all
  next
    case 3
    then show ?thesis by (intro step[of 4]) simp_all
  next
    case 4
    then show ?thesis by (intro step[of 5]) simp_all
  next
    case 5
    then show ?thesis by (intro step[of 6]) simp_all
  next
    case 6
    then show ?thesis by (intro step[of 7]) simp_all
  next
    case 7
    then show ?thesis using assms(3) by (intro step[of 8]) simp_all
  qed
qed

lemma gate_bound:
  assumes "is_double lng" and "0 \<le> lng" and "lng < 360"
  shows "0 \<le> fl (lng / (45 / 8))" and "fl (lng / (45 / 8)) < 64"
proof -
  let ?x = "lng / (45 / 8)"
  have x0: "0 \<le> ?x" using assms(2) by simp
  then show "0 \<le> fl ?x" by (rule fl_nonneg)
  have x64: "?x < 64" using assms(3) by simp
  show "fl ?x < 64"
  proof (cases "?x < 32")
    case True
    have "fl ?x \<le> 2 powi 5" using x0 by (rule fl_le_pow) (use True in simp_all)
    then show ?thesis by simp
  next
    case False
    then have x32: "2 powi 5 \<le> ?x" by simp
    have xlt: "?x < 2 powi (5 + 1)" using x64 by simp
    have top: "lng \<le> 360 - 2 powi (- 44)"
    proof (cases "lng < 256")
      case True
      then show ?thesis by simp
    next
      case False
      then have "2 powi 8 \<le> lng" by simp
      moreover have "lng < 2 powi (8 + 1)" using assms(3) by simp
      ultimately obtain N :: int where N: "lng = of_int N * 2 powi (8 - 52)"
        using double_grid[OF assms(1), of 8] by auto
      have "of_int N * (2::real) powi (- 44) < 360" using assms(3) N by simp
      then have "(of_int N :: real) < of_int 6333186975989760" by (simp add: field_simps)
      then have "N < 6333186975989760" by (simp only: of_int_less_iff)
      then have "N \<le> 6333186975989759" by simp
      then have "(of_int N :: real) \<le> of_int 6333186975989759" by (simp only: of_int_le_iff)
      then show ?thesis unfolding N by (simp add: field_simps)
    qed
    have "?x / 2 powi (5 - 52) < of_int 9007199254740992 - 1 / 2"
      using top by (simp add: field_simps)
    from fl_upper[OF _ _ x32 xlt this]
    have "fl ?x \<le> of_int (9007199254740992 - 1) * 2 powi (5 - 52)" by simp
    then show ?thesis by simp
  qed
qed

lemma line_bound:
  assumes "is_double lng" and "0 \<le> lng" and "lng < 360"
  shows "0 \<le> fl (fl (js_rem lng (45 / 8) / (45 / 8)) * 6)"
    and "fl (fl (js_rem lng (45 / 8) / (45 / 8)) * 6) < 6"
proof -
  let ?d = "45 / 8 :: real"
  let ?k = "\<lfloor>lng / ?d\<rfloor>"
  let ?r = "js_rem lng ?d"
  have q0: "0 \<le> lng / ?d" using assms(2) by simp
  have r: "?r = lng - ?d * of_int ?k" using q0 by (simp add: js_rem_def)
  have "of_int ?k \<le> lng / ?d" by (rule of_int_floor_le)
  then have "?d * of_int ?k \<le> ?d * (lng / ?d)" by (intro mult_left_mono) simp_all
  then have r0: "0 \<le> ?r" unfolding r by simp
  have "lng / ?d < of_int ?k + 1" by (rule real_of_int_floor_add_one_gt)
  then have "?d * (lng / ?d) < ?d * (of_int ?k + 1)" by (intro mult_strict_left_mono) simp_all
  then have r1: "?r < ?d" unfolding r by (simp add: algebra_simps)
  have rtop: "?r \<le> ?d - 2 powi (- 50)"
  proof (cases "lng < 4")
    case True
    have "?r \<le> lng"
    proof -
      have "0 \<le> ?k" using q0 by simp
      then have "(0::real) \<le> of_int ?k" by simp
      then show ?thesis unfolding r by simp
    qed
    then show ?thesis using True by simp
  next
    case False
    then have "4 \<le> lng" by simp
    moreover have "lng < 512" using assms(3) by simp
    ultimately obtain M :: int where M: "lng = of_int M * 2 powi (- 50)"
      using grid50[OF assms(1)] by blast
    have "?r = of_int (M - 6333186975989760 * ?k) * 2 powi (- 50)"
      unfolding r by (subst (1) M) (simp add: field_simps)
    then obtain R :: int where R: "?r = of_int R * 2 powi (- 50)" by blast
    have "of_int R * (2::real) powi (- 50) < 45 / 8" using r1 R by simp
    then have "(of_int R :: real) < of_int 6333186975989760" by (simp add: field_simps)
    then have "R < 6333186975989760" by (simp only: of_int_less_iff)
    then have "R \<le> 6333186975989759" by simp
    then have "(of_int R :: real) \<le> of_int 6333186975989759" by (simp only: of_int_le_iff)
    then show ?thesis unfolding R by (simp add: field_simps)
  qed
  let ?y = "?r / ?d"
  have y0: "0 \<le> ?y" using r0 by simp
  have y1: "?y < 1" using r1 by simp
  have ytop: "?y \<le> 1 - (8 / 45) * 2 powi (- 50)" using rtop by (simp add: field_simps)
  let ?q = "fl ?y"
  have q0': "0 \<le> ?q" using y0 by (rule fl_nonneg)
  have qtop: "?q \<le> 1 - 2 powi (- 53)"
  proof (cases "?y < 1 / 2")
    case True
    have "?q \<le> 2 powi (- 1)" using y0 by (rule fl_le_pow) (use True in simp_all)
    then show ?thesis by simp
  next
    case False
    then have lo: "2 powi (- 1) \<le> ?y" by simp
    have hi: "?y < 2 powi (- 1 + 1)" using y1 by simp
    have "?y / 2 powi (- 1 - 52) < of_int 9007199254740992 - 1 / 2"
      using ytop by (simp add: field_simps)
    from fl_upper[OF _ _ lo hi this]
    have "?q \<le> of_int (9007199254740992 - 1) * 2 powi (- 1 - 52)" by simp
    then show ?thesis by simp
  qed
  let ?z = "?q * 6"
  have z0: "0 \<le> ?z" using q0' by simp
  have ztop: "?z \<le> 6 - 6 * 2 powi (- 53)" using qtop by simp
  show "0 \<le> fl ?z" using z0 by (rule fl_nonneg)
  show "fl ?z < 6"
  proof (cases "?z < 4")
    case True
    have "fl ?z \<le> 2 powi 2" using z0 by (rule fl_le_pow) (use True in simp_all)
    then show ?thesis by simp
  next
    case False
    then have lo: "2 powi 2 \<le> ?z" by simp
    have hi: "?z < 2 powi (2 + 1)" using ztop by simp
    have "?z / 2 powi (2 - 52) < of_int 6755399441055744 - 1 / 2"
      using ztop by (simp add: field_simps)
    from fl_upper[OF _ _ lo hi this]
    have "fl ?z \<le> of_int (6755399441055744 - 1) * 2 powi (2 - 52)" by simp
    then show ?thesis by simp
  qed
qed

text \<open>
  C8. For every longitude, a double with \<open>0 \<le> longitude < 360\<close>, \<open>longitudeToGate\<close>
  returns a gate between 1 and 64 and a line between 1 and 6. The quotients and the
  product are rounded as the doubles round them: the largest double below 360 gives a
  quotient that rounds below 64, and the largest remainder gives a product that rounds
  below 6.
\<close>

theorem longitudeToGate_range:
  assumes "is_double lng" and "0 \<le> lng" and "lng < 360"
  shows "1 \<le> gate (longitudeToGate lng) \<and> gate (longitudeToGate lng) \<le> 64 \<and>
         1 \<le> line (longitudeToGate lng) \<and> line (longitudeToGate lng) \<le> 6"
proof -
  have g0: "0 \<le> \<lfloor>fl (lng / (45 / 8))\<rfloor>" using gate_bound(1)[OF assms] by simp
  have g1: "\<lfloor>fl (lng / (45 / 8))\<rfloor> \<le> 63" using gate_bound(2)[OF assms] by (simp add: floor_le_iff)
  have l0: "0 \<le> \<lfloor>fl (fl (js_rem lng (45 / 8) / (45 / 8)) * 6)\<rfloor>"
    using line_bound(1)[OF assms] by simp
  have l1: "\<lfloor>fl (fl (js_rem lng (45 / 8) / (45 / 8)) * 6)\<rfloor> \<le> 5"
    using line_bound(2)[OF assms] by (simp add: floor_le_iff)
  show ?thesis using g0 g1 l0 l1
    by (simp add: longitudeToGate_def Let_def degreesPerGate_value)
qed

text \<open>The double written \<open>0.9374999999999999\<close> is \<open>15/16 - 2 ^ -53\<close>: its quotient rounds
  to a double whose product with 6 rounds up to 1, so the line is 2, where arithmetic
  without rounding would give line 1.\<close>

lemma fl_at:
  assumes "- 1022 \<le> n" and "n \<le> 1023" and "2 powi n \<le> x" and "x < 2 powi (n + 1)"
    and "round_even (x / 2 powi (n - 52)) = m" and "of_int m * 2 powi (n - 52) = r"
  shows "fl x = r"
  using fl_normal[OF assms(1-4)] assms(5,6) by simp

lemma below_15_16:
  "is_double (15 / 16 - 2 powi (- 53))"
  "longitudeToGate (15 / 16 - 2 powi (- 53)) = \<lparr>gate = 1, line = 2\<rparr>"
proof -
  let ?l = "15 / 16 - 2 powi (- 53) :: real"
  have 1: "fl ?l = ?l"
    by (rule fl_at[where n = "- 1" and m = 8444249301319679]) (simp_all add: round_even_def Let_def)
  then show "is_double ?l" by (simp add: is_double_def)
  have q: "fl (?l / (45 / 8)) = 6004799503160661 * 2 powi (- 55)"
    by (rule fl_at[where n = "- 3" and m = 6004799503160661]) (simp_all add: round_even_def Let_def)
  have r: "js_rem ?l (45 / 8) = ?l" by (simp add: js_rem_def)
  have t: "fl (6004799503160661 * 2 powi (- 55) * 6) = 1"
    by (rule fl_at[where n = "- 1" and m = 9007199254740992]) (simp_all add: round_even_def Let_def)
  show "longitudeToGate ?l = \<lparr>gate = 1, line = 2\<rparr>"
    unfolding longitudeToGate_def Let_def degreesPerGate_value r q t by simp
qed

theorem longitudeToGate_range_witness:
  "is_double (15 / 16 - 2 powi (- 53)) \<and>
   (0::real) \<le> 15 / 16 - 2 powi (- 53) \<and> (15 / 16 - 2 powi (- 53) :: real) < 360 \<and>
   longitudeToGate (15 / 16 - 2 powi (- 53)) = \<lparr>gate = 1, line = 2\<rparr> \<and>
   1 \<le> gate (longitudeToGate (15 / 16 - 2 powi (- 53))) \<and>
   gate (longitudeToGate (15 / 16 - 2 powi (- 53))) \<le> 64 \<and>
   1 \<le> line (longitudeToGate (15 / 16 - 2 powi (- 53))) \<and>
   line (longitudeToGate (15 / 16 - 2 powi (- 53))) \<le> 6"
proof -
  have a: "(0::real) \<le> 15 / 16 - 2 powi (- 53)" and b: "(15 / 16 - 2 powi (- 53) :: real) < 360"
    by simp_all
  show ?thesis
    using longitudeToGate_range[OF below_15_16(1) a b] below_15_16 a b by (intro conjI) simp_all
qed

section \<open>Facts about the schema library\<close>

lemma mergeObject_issues:
  "issues_of (mergeObject pairs) = concat (map (\<lambda>(k, a, r). issues_of r) pairs)"
  by (simp add: mergeObject_def Let_def)

lemma mergeArray_issues: "issues_of (mergeArray rs) = concat (map issues_of rs)"
  by (simp add: mergeArray_def Let_def)

lemma mergeObject_isl: "isl (mergeObject pairs) \<longleftrightarrow> issues_of (mergeObject pairs) \<noteq> []"
  by (simp add: mergeObject_def Let_def)

lemma mergeArray_isl: "isl (mergeArray rs) \<longleftrightarrow> issues_of (mergeArray rs) \<noteq> []"
  by (simp add: mergeArray_def Let_def)

lemma parse_isl: "isl (parse s p v) \<longleftrightarrow> issues_of (parse s p v) \<noteq> []"
proof (induction s arbitrary: p v)
  case ZString
  then show ?case by (cases v) (simp_all add: type_issue_def)
next
  case (ZNumber cs)
  then show ?case by (cases v) (simp_all add: type_issue_def Let_def)
next
  case ZAny
  then show ?case by simp
next
  case (ZOptional s)
  then show ?case by simp
next
  case (ZArray s)
  then show ?case by (cases v) (simp_all add: type_issue_def mergeArray_isl)
next
  case (ZRecord ks vs)
  then show ?case by (cases v) (simp_all add: type_issue_def mergeObject_isl)
next
  case (ZObject shape)
  then show ?case by (cases v) (simp_all add: type_issue_def mergeObject_isl)
qed

lemma parse_object_issues:
  "issues_of (parse (ZObject shape) p (JObj kvs)) =
     concat (map (\<lambda>(k, s). issues_of (parse s (p @ [Key k]) (get_prop kvs k))) shape)"
  by (simp add: mergeObject_issues o_def split_def)

lemma parse_array_issues:
  "issues_of (parse (ZArray s) p (JArr xs)) =
     concat (map (\<lambda>(i, x). issues_of (parse s (p @ [Index i]) x)) (enumerate 0 xs))"
  by (simp add: mergeArray_issues o_def split_def)

lemma parse_optional_issues:
  "v \<noteq> JUndefined \<Longrightarrow> issues_of (parse (ZOptional s) p v) = issues_of (parse s p v)"
  by simp

lemma parse_string_issues:
  "getParsedType v \<noteq> t_string \<Longrightarrow>
     issues_of (parse ZString p v) = [\<lparr>code = invalid_type t_string (getParsedType v), path = p\<rparr>]"
  by (cases v) (simp_all add: type_issue_def)

lemma parse_number_issues:
  "getParsedType v \<noteq> t_number \<Longrightarrow>
     issues_of (parse (ZNumber cs) p v) = [\<lparr>code = invalid_type t_number (getParsedType v), path = p\<rparr>]"
  by (cases v) (simp_all add: type_issue_def)

lemma parse_object_type_issue:
  "getParsedType v \<noteq> t_object \<Longrightarrow>
     issues_of (parse (ZObject shape) p v) = [\<lparr>code = invalid_type t_object (getParsedType v), path = p\<rparr>]"
  by (cases v) (simp_all add: type_issue_def)

lemma parse_record_type_issue:
  "getParsedType v \<noteq> t_object \<Longrightarrow>
     issues_of (parse (ZRecord ks vs) p v) = [\<lparr>code = invalid_type t_object (getParsedType v), path = p\<rparr>]"
  by (cases v) (simp_all add: type_issue_def)

lemma parse_array_type_issue:
  "getParsedType v \<noteq> t_array \<Longrightarrow>
     issues_of (parse (ZArray s) p v) = [\<lparr>code = invalid_type t_array (getParsedType v), path = p\<rparr>]"
  by (cases v) (simp_all add: type_issue_def)

lemma object_iff: "getParsedType v = t_object \<longleftrightarrow> (\<exists>kvs. v = JObj kvs)"
  by (cases v) simp_all

lemma array_iff: "getParsedType v = t_array \<longleftrightarrow> (\<exists>xs. v = JArr xs)"
  by (cases v) simp_all

lemma string_iff: "getParsedType v = t_string \<longleftrightarrow> (\<exists>s. v = JStr s)"
  by (cases v) simp_all

lemma schema_parse_issues:
  "schema_parse s raw = Inl e \<Longrightarrow> e = ZodError (issues_of (parse s [] raw))"
  by (cases "parse s [] raw") (simp_all add: schema_parse_def)

lemma schema_parse_fails:
  "issues_of (parse s [] raw) \<noteq> [] \<Longrightarrow>
     schema_parse s raw = Inl (ZodError (issues_of (parse s [] raw)))"
  by (cases "parse s [] raw") (simp_all add: schema_parse_def)

declare parse.simps [simp del]

section \<open>Responses without their required fields\<close>

lemma output_issues:
  "issues_of (parse AgentOutputSchema [] (JObj kvs)) =
     issues_of (parse (ZOptional ZAny) [Key ''calculation''] (get_prop kvs ''calculation''))
   @ issues_of (parse (ZOptional (ZArray ZString)) [Key ''correlations''] (get_prop kvs ''correlations''))
   @ issues_of (parse ZString [Key ''interpretationSeed''] (get_prop kvs ''interpretationSeed''))
   @ issues_of (parse (ZOptional ZAny) [Key ''visualizationData''] (get_prop kvs ''visualizationData''))
   @ issues_of (parse ZString [Key ''method''] (get_prop kvs ''method''))
   @ issues_of (parse (ZOptional (ZNumber [Min 0, Max 1])) [Key ''confidence''] (get_prop kvs ''confidence''))"
  unfolding AgentOutputSchema_def parse_object_issues by simp

text \<open>
  C1, as the code has it. A raw response that lacks \<open>interpretationSeed\<close> or \<open>method\<close>
  is never returned by \<open>validateOutput\<close>: the result is the schema library's error.
  When the raw value is an object, the error holds the issue named after each missing
  field. When it is not (a string, an array, \<open>null\<close>), the error holds one issue, about
  the value itself, under the empty path.
\<close>

theorem validateOutput_names_missing:
  assumes "get raw ''interpretationSeed'' = JUndefined \<or> get raw ''method'' = JUndefined"
  shows "\<exists>is. validateOutput raw = Inl (ZodError is) \<and>
           (getParsedType raw = t_object \<longrightarrow>
              (get raw ''interpretationSeed'' = JUndefined \<longrightarrow> missing ''interpretationSeed'' \<in> set is) \<and>
              (get raw ''method'' = JUndefined \<longrightarrow> missing ''method'' \<in> set is)) \<and>
           (getParsedType raw \<noteq> t_object \<longrightarrow>
              is = [\<lparr>code = invalid_type t_object (getParsedType raw), path = []\<rparr>])"
proof (cases "getParsedType raw = t_object")
  case False
  then have i: "issues_of (parse AgentOutputSchema [] raw) =
                  [\<lparr>code = invalid_type t_object (getParsedType raw), path = []\<rparr>]"
    unfolding AgentOutputSchema_def by (rule parse_object_type_issue)
  then have "issues_of (parse AgentOutputSchema [] raw) \<noteq> []" by simp
  from schema_parse_fails[OF this] False show ?thesis
    unfolding i by (simp add: validateOutput_def)
next
  case True
  then obtain kvs where raw: "raw = JObj kvs" by (auto simp: object_iff)
  let ?is = "issues_of (parse AgentOutputSchema [] raw)"
  have s: "missing ''interpretationSeed'' \<in> set ?is" if "get raw ''interpretationSeed'' = JUndefined"
    using that unfolding raw output_issues by (simp add: parse_string_issues missing_def)
  have m: "missing ''method'' \<in> set ?is" if "get raw ''method'' = JUndefined"
    using that unfolding raw output_issues by (simp add: parse_string_issues missing_def)
  have "?is \<noteq> []" using assms s m by auto
  from schema_parse_fails[OF this] s m True show ?thesis
    by (auto simp: validateOutput_def)
qed

theorem validateOutput_names_missing_witness:
  "validateOutput (JObj [(''calculation'', JNum 1)]) =
     Inl (ZodError [missing ''interpretationSeed'', missing ''method''])"
proof -
  have a: "get (JObj [(''calculation'', JNum 1)]) ''interpretationSeed'' = JUndefined \<or>
           get (JObj [(''calculation'', JNum 1)]) ''method'' = JUndefined"
    by (simp add: get_prop_def)
  show ?thesis using validateOutput_names_missing[OF a]
    by (simp add: validateOutput_def schema_parse_def AgentOutputSchema_def mergeObject_def
        get_prop_def has_key_def type_issue_def missing_def parse.simps)
qed

text \<open>An empty array has neither field, and the error it is rejected with names
  neither: its one issue is about the array, under the empty path.\<close>

theorem array_response_names_no_field:
  "get (JArr []) ''interpretationSeed'' = JUndefined \<and>
   get (JArr []) ''method'' = JUndefined \<and>
   validateOutput (JArr []) = Inl (ZodError [\<lparr>code = invalid_type t_object t_array, path = []\<rparr>]) \<and>
   missing ''interpretationSeed'' \<noteq> \<lparr>code = invalid_type t_object t_array, path = []\<rparr> \<and>
   missing ''method'' \<noteq> \<lparr>code = invalid_type t_object t_array, path = []\<rparr>"
  by (simp add: validateOutput_def schema_parse_def AgentOutputSchema_def type_issue_def
      missing_def parse.simps)

section \<open>Reading a parsed object\<close>

lemma mergeObject_Inr_issues:
  "mergeObject pairs = Inr out \<Longrightarrow> (k, a, r) \<in> set pairs \<Longrightarrow> issues_of r = []"
  by (auto simp: mergeObject_def Let_def split: if_splits)

lemma map_of_filter_hit:
  "distinct (map fst xs) \<Longrightarrow> (k, v) \<in> set xs \<Longrightarrow> P (k, v) \<Longrightarrow>
     map_of (map (\<lambda>(k, v). (k, f v)) (filter P xs)) k = Some (f v)"
  by (induction xs) (auto simp: rev_image_eqI)

lemma map_of_filter_miss:
  "distinct (map fst xs) \<Longrightarrow> (k, v) \<in> set xs \<Longrightarrow> \<not> P (k, v) \<Longrightarrow>
     map_of (map (\<lambda>(k, v). (k, f v)) (filter P xs)) k = None"
  by (induction xs) (auto simp: rev_image_eqI map_of_eq_None_iff image_iff)

lemma mergeObject_get:
  assumes "mergeObject pairs = Inr out" and "distinct (map fst pairs)" and "(k, a, r) \<in> set pairs"
  shows "get out k = value_of r"
proof -
  let ?P = "\<lambda>(k, alwaysSet, r). value_of r \<noteq> JUndefined \<or> alwaysSet"
  have out: "out = JObj (map (\<lambda>(k, ar). (k, value_of (snd ar))) (filter ?P pairs))"
    using assms(1) by (auto simp: mergeObject_def Let_def split_def split: if_splits)
  show ?thesis
  proof (cases "?P (k, a, r)")
    case True
    have "map_of (map (\<lambda>(k, v). (k, value_of (snd v))) (filter ?P pairs)) k = Some (value_of (snd (a, r)))"
      using assms(2) assms(3) True
      by (rule map_of_filter_hit[where P = ?P and f = "\<lambda>ar. value_of (snd ar)" and v = "(a, r)"])
    then show ?thesis by (simp add: out get_prop_def)
  next
    case False
    have "map_of (map (\<lambda>(k, v). (k, value_of (snd v))) (filter ?P pairs)) k = None"
      using assms(2) assms(3) False
      by (rule map_of_filter_miss[where P = ?P and f = "\<lambda>ar. value_of (snd ar)" and v = "(a, r)"])
    then show ?thesis using False by (simp add: out get_prop_def)
  qed
qed

lemma Inr_value_of: "issues_of r = [] \<Longrightarrow> \<not> isl r \<Longrightarrow> r = Inr (value_of r)"
  by (cases r) simp_all

lemma parse_object_Inr:
  assumes "parse (ZObject shape) p v = Inr out"
  shows "\<exists>kvs. v = JObj kvs"
  using assms by (cases v) (simp_all add: parse.simps type_issue_def)

lemma parse_object_get:
  assumes "parse (ZObject shape) p (JObj kvs) = Inr out" and "distinct (map fst shape)"
    and "(k, s) \<in> set shape"
  shows "parse s (p @ [Key k]) (get_prop kvs k) = Inr (get out k)"
proof -
  let ?pairs = "map (\<lambda>(k, s). (k, has_key kvs k, parse s (p @ [Key k]) (get_prop kvs k))) shape"
  let ?r = "parse s (p @ [Key k]) (get_prop kvs k)"
  have m: "mergeObject ?pairs = Inr out" using assms(1) by (simp add: parse.simps)
  have d: "distinct (map fst ?pairs)" using assms(2) by (simp add: o_def split_def)
  have i: "(k, has_key kvs k, ?r) \<in> set ?pairs" using assms(3) by force
  have "issues_of ?r = []" by (rule mergeObject_Inr_issues[OF m i])
  then have "?r = Inr (value_of ?r)" using parse_isl[of s "p @ [Key k]" "get_prop kvs k"]
    by (intro Inr_value_of) simp_all
  moreover have "get out k = value_of ?r" by (rule mergeObject_get[OF m d i])
  ultimately show ?thesis by simp
qed

section \<open>The interpretation seed\<close>

lemma parse_string_Inr: "parse ZString p v = Inr w \<Longrightarrow> \<exists>s. v = JStr s \<and> w = JStr s"
  by (cases v) (auto simp: parse.simps type_issue_def)

lemma schema_parse_Inr: "schema_parse s raw = Inr out \<Longrightarrow> parse s [] raw = Inr out"
  by (cases "parse s [] raw") (simp_all add: schema_parse_def)

text \<open>
  C3, as the code has it. \<open>validateOutput\<close> requires \<open>interpretationSeed\<close> to be a
  string, and the empty string is one: every response it accepts had a string as its
  \<open>interpretationSeed\<close>, and returns that same string.
\<close>

theorem validateOutput_seed_is_string:
  assumes "validateOutput raw = Inr out"
  shows "\<exists>s. get raw ''interpretationSeed'' = JStr s \<and> get out ''interpretationSeed'' = JStr s"
proof -
  have p: "parse AgentOutputSchema [] raw = Inr out"
    using assms by (simp add: validateOutput_def schema_parse_Inr)
  then obtain kvs where raw: "raw = JObj kvs"
    unfolding AgentOutputSchema_def by (blast dest: parse_object_Inr)
  have "parse ZString ([] @ [Key ''interpretationSeed'']) (get_prop kvs ''interpretationSeed'')
          = Inr (get out ''interpretationSeed'')"
    using p unfolding raw AgentOutputSchema_def by (rule parse_object_get) simp_all
  from parse_string_Inr[OF this] show ?thesis by (simp add: raw)
qed

lemma empty_seed_accepted: "validateOutput empty_seed_response = Inr empty_seed_response"
  by (simp add: empty_seed_response_def validateOutput_def schema_parse_def AgentOutputSchema_def
      mergeObject_def get_prop_def has_key_def parse.simps)

theorem validateOutput_seed_is_string_witness:
  "validateOutput empty_seed_response = Inr empty_seed_response \<and>
   get empty_seed_response ''interpretationSeed'' = JStr ''''"
  using validateOutput_seed_is_string[OF empty_seed_accepted] empty_seed_accepted
  by (simp add: empty_seed_response_def get_prop_def)

text \<open>The response with the empty \<open>interpretationSeed\<close> is accepted and returned.\<close>

theorem empty_seed_counterexample:
  "get empty_seed_response ''interpretationSeed'' = JStr [] \<and>
   validateOutput empty_seed_response = Inr empty_seed_response"
  by (simp add: empty_seed_response_def validateOutput_def schema_parse_def AgentOutputSchema_def
      mergeObject_def get_prop_def has_key_def parse.simps)

section \<open>Requests that go through validation unchanged\<close>

lemma mergeObject_all_set:
  "mergeObject (map (\<lambda>(k, x). (k, True, Inr x)) kvs) = Inr (JObj kvs)"
proof -
  have 2: "concat (map (\<lambda>(k, alwaysSet, r). issues_of r) (map (\<lambda>(k, x). (k, True, Inr x)) kvs)) = []"
    by (induction kvs) auto
  have 3: "filter (\<lambda>(k, alwaysSet, r). value_of r \<noteq> JUndefined \<or> alwaysSet)
             (map (\<lambda>(k, x). (k, True, Inr x)) kvs) = map (\<lambda>(k, x). (k, True, Inr x)) kvs"
    by (induction kvs) auto
  have 4: "map (\<lambda>(k, alwaysSet, r). (k, value_of r)) (map (\<lambda>(k, x). (k, True, Inr x)) kvs) = kvs"
    by (induction kvs) auto
  show ?thesis
    unfolding mergeObject_def Let_def 2 unfolding 3 unfolding 4 by simp
qed

lemma parse_record_any:
  "parse (ZRecord ZString ZAny) p (JObj kvs) = Inr (JObj (without_proto kvs))"
proof -
  have "parse (ZRecord ZString ZAny) p (JObj kvs)
          = mergeObject (map (\<lambda>(k, x). (k, True, Inr x)) (without_proto kvs))"
    by (simp add: parse.simps Let_def)
  then show ?thesis by (simp only: mergeObject_all_set)
qed

lemma without_proto_id: "\<not> List.member (map fst h) ''__proto__'' \<Longrightarrow> without_proto h = h"
  unfolding without_proto_def by (rule filter_True) (force simp: image_iff)

lemma parse_strings_enumerate:
  "map (\<lambda>(i, x). parse ZString (p @ [Index i]) x) (enumerate n (map JStr ts)) = map (\<lambda>t. Inr (JStr t)) ts"
  by (induction ts arbitrary: n) (simp_all add: parse.simps)

lemma parse_array_strings:
  "parse (ZArray ZString) p (JArr (map JStr ts)) = Inr (JArr (map JStr ts))"
proof -
  have 2: "concat (map issues_of (map (\<lambda>t. Inr (JStr t)) ts)) = []"
    by (induction ts) auto
  show ?thesis
    unfolding parse.simps json.case parse_strings_enumerate mergeArray_def Let_def 2
    by (simp add: o_def)
qed

lemma encode_birthData_defined: "encode_birthData b \<noteq> JUndefined"
  by (simp add: encode_birthData_def)

lemma parse_birthData:
  "parse (ZObject
               [(''date'', ZString),
                (''time'', ZString),
                (''location'', ZObject
                   [(''latitude'', ZNumber []),
                    (''longitude'', ZNumber [])])]) p (encode_birthData b) = Inr (encode_birthData b)"
  by (simp add: encode_birthData_def parse.simps mergeObject_def get_prop_def has_key_def)

text \<open>
  C5, as the code has it. For every value of the type \<open>AgentInput\<close>, with any
  combination of the four optional properties that the schema declares (\<open>birthData\<close>,
  \<open>healthMetrics\<close>, \<open>journalThemes\<close>, \<open>userQuery\<close>), \<open>validateInput\<close> accepts the
  object. What it returns is the same value short of a property \<open>__proto__\<close> of the health
  metrics; when the health metrics have no such property it is an equal value: a
  property that was set is set, one that was absent is absent. (Latitude and longitude
  are numbers here; \<open>NaN\<close> is not one, and the schema rejects it.)
\<close>

theorem validateInput_roundtrip:
  "validateInput (encodeInput r) = Inr (encodeInput (as_validated r)) \<and>
   (proto_free r \<longrightarrow> validateInput (encodeInput r) = Inr (encodeInput r))"
proof -
  obtain f c where r: "r = \<lparr>in_framework = f, in_context = c\<rparr>" by (cases r) simp
  obtain b h j u where c: "c = \<lparr>ctx_birthData = b, ctx_healthMetrics = h, ctx_journalThemes = j, ctx_userQuery = u\<rparr>"
    by (cases c) simp
  let ?c' = "c\<lparr>ctx_healthMetrics := map_option without_proto h\<rparr>"
  have ctx: "parse (ZObject
           [(''birthData'', ZOptional (ZObject
               [(''date'', ZString),
                (''time'', ZString),
                (''location'', ZObject
                   [(''latitude'', ZNumber []),
                    (''longitude'', ZNumber [])])])),
            (''healthMetrics'', ZOptional (ZRecord ZString ZAny)),
            (''journalThemes'', ZOptional (ZArray ZString)),
            (''userQuery'', ZOptional ZString)]) p (encode_context c) = Inr (encode_context ?c')" for p
    unfolding c encode_context_def
    by (cases b; cases h; cases j; cases u)
       (subst parse.simps(7),
        simp add: parse.simps(4) parse.simps(1) parse_record_any parse_array_strings parse_birthData
          mergeObject_def get_prop_def has_key_def encode_birthData_defined)+
  have hc: "ctx_healthMetrics c = h" by (simp add: c)
  have 1: "validateInput (encodeInput r) = Inr (encodeInput (as_validated r))"
    unfolding validateInput_def schema_parse_def AgentInputSchema_def encodeInput_def r as_validated_def
    by (subst parse.simps(7))
       (simp add: parse.simps(1) ctx hc mergeObject_def get_prop_def has_key_def)
  have 2: "as_validated r = r" if "proto_free r"
    using that unfolding r c as_validated_def proto_free_def
    by (cases h) (simp_all add: without_proto_id)
  show ?thesis using 1 2 by simp
qed

theorem validateInput_roundtrip_witness:
  "proto_free full_request \<and> validateInput (encodeInput full_request) = Inr (encodeInput full_request)"
proof -
  have p: "proto_free full_request" by (simp add: proto_free_def full_request_def)
  from conjunct2[OF validateInput_roundtrip[of full_request]] p
  have "validateInput (encodeInput full_request) = Inr (encodeInput full_request)" by (rule mp)
  with p show ?thesis by (rule conjI)
qed

text \<open>A map of upstream results is not a property of the schema: the request that
  carries one is accepted, and returned without it. So is a request whose health metrics
  have a property \<open>__proto__\<close>: it is returned without that property.\<close>

theorem upstream_stripped:
  "get (get upstream_request ''context'') ''upstream'' =
     JObj [(''astrology'', JObj [(''interpretationSeed'', JStr ''seed''), (''method'', JStr ''deterministic'')])] \<and>
   validateInput upstream_request =
     Inr (JObj [(''framework'', JStr ''human-design''),
                (''context'', JObj [(''userQuery'', JStr ''hello'')])]) \<and>
   validateInput upstream_request \<noteq> Inr upstream_request \<and>
   validateInput proto_request =
     Inr (JObj [(''framework'', JStr ''human-design''),
                (''context'', JObj [(''healthMetrics'', JObj [(''steps'', JNum 2)])])]) \<and>
   validateInput proto_request \<noteq> Inr proto_request"
  by (simp add: upstream_request_def proto_request_def validateInput_def schema_parse_def
      AgentInputSchema_def parse.simps mergeObject_def without_proto_def get_prop_def has_key_def)

section \<open>Every violated field is listed\<close>

lemma AgentInputSchema_eq:
  "AgentInputSchema = ZObject [(''framework'', ZString), (''context'', contextSchema)]"
  by (simp add: AgentInputSchema_def contextSchema_def birthDataSchema_def locationSchema_def)

lemma top_issues:
  "issues_of (parse AgentInputSchema [] (JObj kvs)) =
     issues_of (parse ZString [Key ''framework''] (get_prop kvs ''framework''))
   @ issues_of (parse contextSchema [Key ''context''] (get_prop kvs ''context''))"
  unfolding AgentInputSchema_eq parse_object_issues by simp

lemma context_issues:
  "issues_of (parse contextSchema p (JObj kvs)) =
     issues_of (parse (ZOptional birthDataSchema) (p @ [Key ''birthData'']) (get_prop kvs ''birthData''))
   @ issues_of (parse (ZOptional (ZRecord ZString ZAny)) (p @ [Key ''healthMetrics'']) (get_prop kvs ''healthMetrics''))
   @ issues_of (parse (ZOptional (ZArray ZString)) (p @ [Key ''journalThemes'']) (get_prop kvs ''journalThemes''))
   @ issues_of (parse (ZOptional ZString) (p @ [Key ''userQuery'']) (get_prop kvs ''userQuery''))"
  unfolding contextSchema_def parse_object_issues by simp

lemma birthData_issues:
  "issues_of (parse birthDataSchema p (JObj kvs)) =
     issues_of (parse ZString (p @ [Key ''date'']) (get_prop kvs ''date''))
   @ issues_of (parse ZString (p @ [Key ''time'']) (get_prop kvs ''time''))
   @ issues_of (parse locationSchema (p @ [Key ''location'']) (get_prop kvs ''location''))"
  unfolding birthDataSchema_def parse_object_issues by simp

lemma location_issues:
  "issues_of (parse locationSchema p (JObj kvs)) =
     issues_of (parse (ZNumber []) (p @ [Key ''latitude'']) (get_prop kvs ''latitude''))
   @ issues_of (parse (ZNumber []) (p @ [Key ''longitude'']) (get_prop kvs ''longitude''))"
  unfolding locationSchema_def parse_object_issues by simp

lemma undefined_type: "getParsedType v \<noteq> t_undefined \<Longrightarrow> v \<noteq> JUndefined"
  by auto

lemma enumerate_issue:
  "i < length xs \<Longrightarrow> getParsedType (xs ! i) \<noteq> t_string \<Longrightarrow>
     \<lparr>code = invalid_type t_string (getParsedType (xs ! i)), path = p @ [Index (n + i)]\<rparr>
       \<in> set (concat (map (\<lambda>(j, x). issues_of (parse ZString (p @ [Index j]) x)) (enumerate n xs)))"
proof (induction xs arbitrary: i n)
  case Nil
  then show ?case by simp
next
  case (Cons x xs)
  show ?case
  proof (cases i)
    case 0
    then show ?thesis using Cons.prems by (simp add: parse_string_issues)
  next
    case (Suc j)
    then have "\<lparr>code = invalid_type t_string (getParsedType (xs ! j)), path = p @ [Index (Suc n + j)]\<rparr>
       \<in> set (concat (map (\<lambda>(j, x). issues_of (parse ZString (p @ [Index j]) x)) (enumerate (Suc n) xs)))"
      using Cons.prems by (intro Cons.IH) simp_all
    then show ?thesis using Suc by simp
  qed
qed

lemma fi_framework:
  assumes "violated raw ([Key ''framework''], True, t_string)"
  shows "field_issue raw ([Key ''framework''], True, t_string) \<in> set (issues_of (parse AgentInputSchema [] raw))"
proof -
  have parent: "getParsedType (raw) = t_object"
    and bad: "getParsedType (get raw ''framework'') \<noteq> t_string"
    using assms by (simp_all add: violated_def)
  from parent obtain kvs where o0: "raw = JObj kvs" by (auto simp: object_iff)
  show ?thesis using bad  unfolding o0 top_issues field_issue_def
    by (simp add: parse_string_issues)
qed

lemma fi_context:
  assumes "violated raw ([Key ''context''], True, t_object)"
  shows "field_issue raw ([Key ''context''], True, t_object) \<in> set (issues_of (parse AgentInputSchema [] raw))"
proof -
  have parent: "getParsedType (raw) = t_object"
    and bad: "getParsedType (get raw ''context'') \<noteq> t_object"
    using assms by (simp_all add: violated_def)
  from parent obtain kvs where o0: "raw = JObj kvs" by (auto simp: object_iff)
  show ?thesis using bad  unfolding o0 top_issues field_issue_def
    by (simp add: contextSchema_def parse_object_type_issue)
qed

lemma fi_birthData:
  assumes "violated raw ([Key ''context'', Key ''birthData''], False, t_object)"
  shows "field_issue raw ([Key ''context'', Key ''birthData''], False, t_object) \<in> set (issues_of (parse AgentInputSchema [] raw))"
proof -
  have parent: "getParsedType (get raw ''context'') = t_object"
    and bad: "getParsedType (get (get raw ''context'') ''birthData'') \<noteq> t_object"
    and need: "get (get raw ''context'') ''birthData'' \<noteq> JUndefined"
    using assms by (simp_all add: violated_def)
  from parent obtain c where o1: "get raw ''context'' = JObj c" by (auto simp: object_iff)
  from o1 obtain kvs where o0: "raw = JObj kvs" by (cases "raw") simp_all
  show ?thesis using bad need o1 unfolding o0 top_issues field_issue_def
    by (simp add: context_issues parse_optional_issues birthDataSchema_def parse_object_type_issue)
qed

lemma fi_date:
  assumes "violated raw ([Key ''context'', Key ''birthData'', Key ''date''], True, t_string)"
  shows "field_issue raw ([Key ''context'', Key ''birthData'', Key ''date''], True, t_string) \<in> set (issues_of (parse AgentInputSchema [] raw))"
proof -
  have parent: "getParsedType (get (get raw ''context'') ''birthData'') = t_object"
    and bad: "getParsedType (get (get (get raw ''context'') ''birthData'') ''date'') \<noteq> t_string"
    using assms by (simp_all add: violated_def)
  from parent obtain b where o2: "get (get raw ''context'') ''birthData'' = JObj b" by (auto simp: object_iff)
  from o2 obtain c where o1: "get raw ''context'' = JObj c" by (cases "get raw ''context''") simp_all
  from o1 obtain kvs where o0: "raw = JObj kvs" by (cases "raw") simp_all
  show ?thesis using bad o1 o2 unfolding o0 top_issues field_issue_def
    by (simp add: context_issues parse_optional_issues birthData_issues parse_string_issues)
qed

lemma fi_time:
  assumes "violated raw ([Key ''context'', Key ''birthData'', Key ''time''], True, t_string)"
  shows "field_issue raw ([Key ''context'', Key ''birthData'', Key ''time''], True, t_string) \<in> set (issues_of (parse AgentInputSchema [] raw))"
proof -
  have parent: "getParsedType (get (get raw ''context'') ''birthData'') = t_object"
    and bad: "getParsedType (get (get (get raw ''context'') ''birthData'') ''time'') \<noteq> t_string"
    using assms by (simp_all add: violated_def)
  from parent obtain b where o2: "get (get raw ''context'') ''birthData'' = JObj b" by (auto simp: object_iff)
  from o2 obtain c where o1: "get raw ''context'' = JObj c" by (cases "get raw ''context''") simp_all
  from o1 obtain kvs where o0: "raw = JObj kvs" by (cases "raw") simp_all
  show ?thesis using bad o1 o2 unfolding o0 top_issues field_issue_def
    by (simp add: context_issues parse_optional_issues birthData_issues parse_string_issues)
qed

lemma fi_location:
  assumes "violated raw ([Key ''context'', Key ''birthData'', Key ''location''], True, t_object)"
  shows "field_issue raw ([Key ''context'', Key ''birthData'', Key ''location''], True, t_object) \<in> set (issues_of (parse AgentInputSchema [] raw))"
proof -
  have parent: "getParsedType (get (get raw ''context'') ''birthData'') = t_object"
    and bad: "getParsedType (get (get (get raw ''context'') ''birthData'') ''location'') \<noteq> t_object"
    using assms by (simp_all add: violated_def)
  from parent obtain b where o2: "get (get raw ''context'') ''birthData'' = JObj b" by (auto simp: object_iff)
  from o2 obtain c where o1: "get raw ''context'' = JObj c" by (cases "get raw ''context''") simp_all
  from o1 obtain kvs where o0: "raw = JObj kvs" by (cases "raw") simp_all
  show ?thesis using bad o1 o2 unfolding o0 top_issues field_issue_def
    by (simp add: context_issues parse_optional_issues birthData_issues locationSchema_def parse_object_type_issue)
qed

lemma fi_latitude:
  assumes "violated raw ([Key ''context'', Key ''birthData'', Key ''location'', Key ''latitude''], True, t_number)"
  shows "field_issue raw ([Key ''context'', Key ''birthData'', Key ''location'', Key ''latitude''], True, t_number) \<in> set (issues_of (parse AgentInputSchema [] raw))"
proof -
  have parent: "getParsedType (get (get (get raw ''context'') ''birthData'') ''location'') = t_object"
    and bad: "getParsedType (get (get (get (get raw ''context'') ''birthData'') ''location'') ''latitude'') \<noteq> t_number"
    using assms by (simp_all add: violated_def)
  from parent obtain l where o3: "get (get (get raw ''context'') ''birthData'') ''location'' = JObj l" by (auto simp: object_iff)
  from o3 obtain b where o2: "get (get raw ''context'') ''birthData'' = JObj b" by (cases "get (get raw ''context'') ''birthData''") simp_all
  from o2 obtain c where o1: "get raw ''context'' = JObj c" by (cases "get raw ''context''") simp_all
  from o1 obtain kvs where o0: "raw = JObj kvs" by (cases "raw") simp_all
  show ?thesis using bad o1 o2 o3 unfolding o0 top_issues field_issue_def
    by (simp add: context_issues parse_optional_issues birthData_issues location_issues parse_number_issues)
qed

lemma fi_longitude:
  assumes "violated raw ([Key ''context'', Key ''birthData'', Key ''location'', Key ''longitude''], True, t_number)"
  shows "field_issue raw ([Key ''context'', Key ''birthData'', Key ''location'', Key ''longitude''], True, t_number) \<in> set (issues_of (parse AgentInputSchema [] raw))"
proof -
  have parent: "getParsedType (get (get (get raw ''context'') ''birthData'') ''location'') = t_object"
    and bad: "getParsedType (get (get (get (get raw ''context'') ''birthData'') ''location'') ''longitude'') \<noteq> t_number"
    using assms by (simp_all add: violated_def)
  from parent obtain l where o3: "get (get (get raw ''context'') ''birthData'') ''location'' = JObj l" by (auto simp: object_iff)
  from o3 obtain b where o2: "get (get raw ''context'') ''birthData'' = JObj b" by (cases "get (get raw ''context'') ''birthData''") simp_all
  from o2 obtain c where o1: "get raw ''context'' = JObj c" by (cases "get raw ''context''") simp_all
  from o1 obtain kvs where o0: "raw = JObj kvs" by (cases "raw") simp_all
  show ?thesis using bad o1 o2 o3 unfolding o0 top_issues field_issue_def
    by (simp add: context_issues parse_optional_issues birthData_issues location_issues parse_number_issues)
qed

lemma fi_healthMetrics:
  assumes "violated raw ([Key ''context'', Key ''healthMetrics''], False, t_object)"
  shows "field_issue raw ([Key ''context'', Key ''healthMetrics''], False, t_object) \<in> set (issues_of (parse AgentInputSchema [] raw))"
proof -
  have parent: "getParsedType (get raw ''context'') = t_object"
    and bad: "getParsedType (get (get raw ''context'') ''healthMetrics'') \<noteq> t_object"
    and need: "get (get raw ''context'') ''healthMetrics'' \<noteq> JUndefined"
    using assms by (simp_all add: violated_def)
  from parent obtain c where o1: "get raw ''context'' = JObj c" by (auto simp: object_iff)
  from o1 obtain kvs where o0: "raw = JObj kvs" by (cases "raw") simp_all
  show ?thesis using bad need o1 unfolding o0 top_issues field_issue_def
    by (simp add: context_issues parse_optional_issues parse_record_type_issue)
qed

lemma fi_journalThemes:
  assumes "violated raw ([Key ''context'', Key ''journalThemes''], False, t_array)"
  shows "field_issue raw ([Key ''context'', Key ''journalThemes''], False, t_array) \<in> set (issues_of (parse AgentInputSchema [] raw))"
proof -
  have parent: "getParsedType (get raw ''context'') = t_object"
    and bad: "getParsedType (get (get raw ''context'') ''journalThemes'') \<noteq> t_array"
    and need: "get (get raw ''context'') ''journalThemes'' \<noteq> JUndefined"
    using assms by (simp_all add: violated_def)
  from parent obtain c where o1: "get raw ''context'' = JObj c" by (auto simp: object_iff)
  from o1 obtain kvs where o0: "raw = JObj kvs" by (cases "raw") simp_all
  show ?thesis using bad need o1 unfolding o0 top_issues field_issue_def
    by (simp add: context_issues parse_optional_issues parse_array_type_issue)
qed

lemma fi_userQuery:
  assumes "violated raw ([Key ''context'', Key ''userQuery''], False, t_string)"
  shows "field_issue raw ([Key ''context'', Key ''userQuery''], False, t_string) \<in> set (issues_of (parse AgentInputSchema [] raw))"
proof -
  have parent: "getParsedType (get raw ''context'') = t_object"
    and bad: "getParsedType (get (get raw ''context'') ''userQuery'') \<noteq> t_string"
    and need: "get (get raw ''context'') ''userQuery'' \<noteq> JUndefined"
    using assms by (simp_all add: violated_def)
  from parent obtain c where o1: "get raw ''context'' = JObj c" by (auto simp: object_iff)
  from o1 obtain kvs where o0: "raw = JObj kvs" by (cases "raw") simp_all
  show ?thesis using bad need o1 unfolding o0 top_issues field_issue_def
    by (simp add: context_issues parse_optional_issues parse_string_issues)
qed

lemma input_field_issue:
  assumes "f \<in> set AgentInput_fields" and "violated raw f"
  shows "field_issue raw f \<in> set (issues_of (parse AgentInputSchema [] raw))"
proof -
  from assms(1) have
    "f = ([Key ''framework''], True, t_string)
     \<or> f = ([Key ''context''], True, t_object)
     \<or> f = ([Key ''context'', Key ''birthData''], False, t_object)
     \<or> f = ([Key ''context'', Key ''birthData'', Key ''date''], True, t_string)
     \<or> f = ([Key ''context'', Key ''birthData'', Key ''time''], True, t_string)
     \<or> f = ([Key ''context'', Key ''birthData'', Key ''location''], True, t_object)
     \<or> f = ([Key ''context'', Key ''birthData'', Key ''location'', Key ''latitude''], True, t_number)
     \<or> f = ([Key ''context'', Key ''birthData'', Key ''location'', Key ''longitude''], True, t_number)
     \<or> f = ([Key ''context'', Key ''healthMetrics''], False, t_object)
     \<or> f = ([Key ''context'', Key ''journalThemes''], False, t_array)
     \<or> f = ([Key ''context'', Key ''userQuery''], False, t_string)"
    by (simp only: AgentInput_fields_def list.set insert_iff empty_iff simp_thms)
  then show ?thesis using assms(2)
    by (elim disjE) (simp_all only: fi_framework fi_context fi_birthData fi_date fi_time fi_location fi_latitude fi_longitude fi_healthMetrics fi_journalThemes fi_userQuery)
qed

lemma input_theme_issue:
  assumes "theme_violated raw i"
  shows "theme_issue raw i \<in> set (issues_of (parse AgentInputSchema [] raw))"
proof -
  from assms obtain xs where xs: "get (get raw ''context'') ''journalThemes'' = JArr xs"
    and i: "i < length xs" and bad: "getParsedType (xs ! i) \<noteq> t_string"
    by (auto simp: theme_violated_def split: json.splits)
  from xs obtain c where c: "get raw ''context'' = JObj c" by (cases "get raw ''context''") simp_all
  then obtain kvs where raw: "raw = JObj kvs" by (cases raw) simp_all
  have "\<lparr>code = invalid_type t_string (getParsedType (xs ! i)),
          path = [Key ''context'', Key ''journalThemes''] @ [Index (0 + i)]\<rparr>
       \<in> set (concat (map (\<lambda>(j, x). issues_of (parse ZString ([Key ''context'', Key ''journalThemes''] @ [Index j]) x))
                  (enumerate 0 xs)))"
    using i bad by (rule enumerate_issue)
  then show ?thesis using xs c i unfolding raw top_issues theme_issue_def
    by (simp add: context_issues parse_optional_issues parse_array_issues)
qed

text \<open>
  C4. When \<open>validateInput\<close> fails, the one error it throws lists every violated
  field of the raw input, each under its own path with the expected and the received
  type: all eleven declared fields and every element of \<open>journalThemes\<close>, not only
  the first one met.
\<close>

theorem validateInput_lists_every_violation:
  assumes "validateInput raw = Inl e"
  shows "\<exists>is. e = ZodError is \<and>
           (\<forall>f \<in> set AgentInput_fields. violated raw f \<longrightarrow> field_issue raw f \<in> set is) \<and>
           (\<forall>i. theme_violated raw i \<longrightarrow> theme_issue raw i \<in> set is)"
proof -
  have "e = ZodError (issues_of (parse AgentInputSchema [] raw))"
    using assms unfolding validateInput_def by (rule schema_parse_issues)
  then show ?thesis using input_field_issue input_theme_issue by blast
qed

lemma two_violations_rejected:
  "validateInput two_violations =
     Inl (ZodError
       [\<lparr>code = invalid_type t_string t_number, path = [Key ''framework'']\<rparr>,
        \<lparr>code = invalid_type t_number t_string,
          path = [Key ''context'', Key ''birthData'', Key ''location'', Key ''latitude'']\<rparr>])"
  by (simp add: two_violations_def validateInput_def schema_parse_def AgentInputSchema_def
      parse.simps mergeObject_def get_prop_def has_key_def type_issue_def)

theorem validateInput_lists_every_violation_witness:
  "validateInput two_violations =
     Inl (ZodError
       [\<lparr>code = invalid_type t_string t_number, path = [Key ''framework'']\<rparr>,
        \<lparr>code = invalid_type t_number t_string,
          path = [Key ''context'', Key ''birthData'', Key ''location'', Key ''latitude'']\<rparr>]) \<and>
   violated two_violations ([Key ''framework''], True, t_string) \<and>
   violated two_violations
     ([Key ''context'', Key ''birthData'', Key ''location'', Key ''latitude''], True, t_number) \<and>
   field_issue two_violations ([Key ''framework''], True, t_string)
     \<in> set [\<lparr>code = invalid_type t_string t_number, path = [Key ''framework'']\<rparr>,
        \<lparr>code = invalid_type t_number t_string,
          path = [Key ''context'', Key ''birthData'', Key ''location'', Key ''latitude'']\<rparr>] \<and>
   field_issue two_violations
     ([Key ''context'', Key ''birthData'', Key ''location'', Key ''latitude''], True, t_number)
     \<in> set [\<lparr>code = invalid_type t_string t_number, path = [Key ''framework'']\<rparr>,
        \<lparr>code = invalid_type t_number t_string,
          path = [Key ''context'', Key ''birthData'', Key ''location'', Key ''latitude'']\<rparr>]"
proof -
  let ?is = "[\<lparr>code = invalid_type t_string t_number, path = [Key ''framework'']\<rparr>,
        \<lparr>code = invalid_type t_number t_string,
          path = [Key ''context'', Key ''birthData'', Key ''location'', Key ''latitude'']\<rparr>]"
  have v1: "violated two_violations ([Key ''framework''], True, t_string)"
    by (simp add: violated_def two_violations_def get_prop_def)
  have v2: "violated two_violations
     ([Key ''context'', Key ''birthData'', Key ''location'', Key ''latitude''], True, t_number)"
    by (simp add: violated_def two_violations_def get_prop_def)
  have m1: "([Key ''framework''], True, t_string) \<in> set AgentInput_fields"
    and m2: "([Key ''context'', Key ''birthData'', Key ''location'', Key ''latitude''], True, t_number)
       \<in> set AgentInput_fields"
    by (simp_all add: AgentInput_fields_def)
  from validateInput_lists_every_violation[OF two_violations_rejected]
  obtain iss where e: "ZodError ?is = ZodError iss"
    and all: "\<forall>f \<in> set AgentInput_fields. violated two_violations f \<longrightarrow> field_issue two_violations f \<in> set iss"
    by blast
  from e have iseq: "iss = ?is" by simp
  have "field_issue two_violations ([Key ''framework''], True, t_string) \<in> set ?is"
    using bspec[OF all m1] v1 unfolding iseq by (rule mp)
  moreover have "field_issue two_violations
     ([Key ''context'', Key ''birthData'', Key ''location'', Key ''latitude''], True, t_number) \<in> set ?is"
    using bspec[OF all m2] v2 unfolding iseq by (rule mp)
  ultimately show ?thesis using two_violations_rejected v1 v2 by (intro conjI)
qed

section \<open>Execution of the Human Design agent\<close>

lemma validateOutput_made:
  "validateOutput (JObj [(''calculation'', c), (''correlations'', JArr (map JStr ls)),
                         (''interpretationSeed'', JStr s), (''method'', JStr m),
                         (''confidence'', JNum (fl 0.95))])
   = Inr (JObj [(''calculation'', c), (''correlations'', JArr (map JStr ls)),
                (''interpretationSeed'', JStr s), (''method'', JStr m),
                (''confidence'', JNum (fl 0.95))])"
proof -
  have lo: "\<not> fl (19 / 20) < 0" using fl_nonneg[of "19 / 20"] by simp
  have "fl (19 / 20) \<le> 2 powi 0" by (rule fl_le_pow) simp_all
  then have hi: "\<not> 1 < fl (19 / 20)" by simp
  show ?thesis
    unfolding validateOutput_def schema_parse_def AgentOutputSchema_def
    by (subst parse.simps(7))
       (simp add: parse.simps(1,2,3,4) parse_array_strings mergeObject_def get_prop_def has_key_def
          lo hi)
qed

lemma prompt_serialisable:
  assumes "serialisable (get ctx ''healthMetrics'')"
  shows "\<exists>s. generateInterpretationPrompt txt c ctx = Inr s"
proof (cases "truthy (get ctx ''healthMetrics'')")
  case True
  show ?thesis unfolding generateInterpretationPrompt_def JSON_stringify_def
    by (simp only: assms True if_True sum.case) (rule exI, rule refl)
next
  case False
  show ?thesis unfolding generateInterpretationPrompt_def JSON_stringify_def
    by (simp only: False if_False sum.case) (rule exI, rule refl)
qed

lemma prompt_not_serialisable:
  assumes "\<not> serialisable (get ctx ''healthMetrics'')" and "truthy (get ctx ''healthMetrics'')"
  shows "generateInterpretationPrompt txt c ctx = Inl TypeError"
  unfolding generateInterpretationPrompt_def JSON_stringify_def
  using assms by (simp only: if_True if_False sum.case)

lemma tail_returns:
  assumes "serialisable (get ctx ''healthMetrics'')"
  shows "\<exists>out. (case generateInterpretationPrompt txt c ctx of
                  Inl e \<Rightarrow> Inl e
                | Inr seed \<Rightarrow>
                    validateOutput
                      (JObj [(''calculation'', k), (''correlations'', JArr (map JStr ls)),
                             (''interpretationSeed'', JStr seed), (''method'', JStr m),
                             (''confidence'', JNum (fl 0.95))])) = Inr out
               \<and> validateOutput out = Inr out"
proof -
  from prompt_serialisable[OF assms] obtain s where s: "generateInterpretationPrompt txt c ctx = Inr s"
    by blast
  show ?thesis unfolding s
    by (simp only: sum.case) (rule exI, rule conjI, rule validateOutput_made, rule validateOutput_made)
qed

lemma tail_throws:
  assumes "\<not> serialisable (get ctx ''healthMetrics'')" and "truthy (get ctx ''healthMetrics'')"
  shows "(case generateInterpretationPrompt txt c ctx of
            Inl e \<Rightarrow> Inl e
          | Inr seed \<Rightarrow> validateOutput (g seed)) = Inl TypeError"
  unfolding prompt_not_serialisable[OF assms] by (simp only: sum.case)

lemma Let_returns:
  "(\<And>x. x = a \<Longrightarrow> \<exists>out. f x = Inr out \<and> validateOutput out = Inr out) \<Longrightarrow>
     \<exists>out. Let a f = Inr out \<and> validateOutput out = Inr out"
  by simp

lemma Let_result: "(\<And>x. x = a \<Longrightarrow> f x = r) \<Longrightarrow> Let a f = r"
  by simp

lemma execute_invalid:
  "validateInput input = Inl e \<Longrightarrow> execute txt self input = Inl e"
  unfolding execute_def by (simp only: sum.case)

lemma execute_no_birthData:
  assumes "validateInput input = Inr v" and "\<not> truthy (get (get v ''context'') ''birthData'')"
  shows "execute txt self input = Inl (Error ''Birth data required for Human Design calculation'')"
  unfolding execute_def using assms by (simp only: sum.case not_False_eq_True if_True)

lemma execute_returns:
  assumes "validateInput input = Inr v" and "truthy (get (get v ''context'') ''birthData'')"
    and "serialisable (get (get v ''context'') ''healthMetrics'')"
  shows "\<exists>out. execute txt self input = Inr out \<and> validateOutput out = Inr out"
  unfolding execute_def
  apply (simp only: assms(1,2) sum.case not_True_eq_False if_False)
  apply (intro Let_returns)
  apply (rule tail_returns[OF assms(3)])
  done

lemma execute_stringify_throws:
  assumes "validateInput input = Inr v" and "truthy (get (get v ''context'') ''birthData'')"
    and "\<not> serialisable (get (get v ''context'') ''healthMetrics'')"
    and "truthy (get (get v ''context'') ''healthMetrics'')"
  shows "execute txt self input = Inl TypeError"
  unfolding execute_def
  apply (simp only: assms(1,2) sum.case not_True_eq_False if_False)
  apply (intro Let_result)
  apply (rule tail_throws[OF assms(3,4)])
  done

lemma mergeObject_result: "mergeObject pairs = Inr w \<Longrightarrow> \<exists>kvs. w = JObj kvs"
  by (auto simp: mergeObject_def Let_def split: if_splits)

lemma parse_object_result:
  assumes "parse (ZObject shape) p x = Inr w"
  shows "\<exists>kvs. w = JObj kvs"
proof -
  from parse_object_Inr[OF assms] obtain kvs where x: "x = JObj kvs" by blast
  have "mergeObject (map (\<lambda>(k, s). (k, has_key kvs k, parse s (p @ [Key k]) (get_prop kvs k))) shape) = Inr w"
    using assms unfolding x by (simp add: parse.simps)
  then show ?thesis by (rule mergeObject_result)
qed

lemma parse_record_Inr:
  assumes "parse (ZRecord ZString ZAny) p x = Inr w"
  shows "w = drop_proto x \<and> (\<exists>kvs. x = JObj kvs)"
proof -
  from assms obtain kvs where x: "x = JObj kvs"
    by (cases x) (simp_all add: parse.simps type_issue_def)
  from assms show ?thesis unfolding x parse_record_any by auto
qed

lemma validated_shape:
  assumes "validateInput raw = Inr v"
  obtains kvs c where "raw = JObj kvs" and "get_prop kvs ''context'' = JObj c"
    and "parse contextSchema [Key ''context''] (JObj c) = Inr (get v ''context'')"
proof -
  have p: "parse AgentInputSchema [] raw = Inr v"
    using assms by (simp add: validateInput_def schema_parse_Inr)
  then obtain kvs where raw: "raw = JObj kvs"
    unfolding AgentInputSchema_eq by (blast dest: parse_object_Inr)
  have c: "parse contextSchema ([] @ [Key ''context'']) (get_prop kvs ''context'') = Inr (get v ''context'')"
    using p unfolding raw AgentInputSchema_eq by (rule parse_object_get) simp_all
  then obtain c where cc: "get_prop kvs ''context'' = JObj c"
    unfolding contextSchema_def by (blast dest: parse_object_Inr)
  show ?thesis using raw cc c that by simp
qed

lemma validated_birthData:
  assumes "validateInput raw = Inr v"
  shows "truthy (get (get v ''context'') ''birthData'') \<longleftrightarrow>
           get (get raw ''context'') ''birthData'' \<noteq> JUndefined"
proof -
  from assms obtain kvs c where raw: "raw = JObj kvs" and c: "get_prop kvs ''context'' = JObj c"
    and p: "parse contextSchema [Key ''context''] (JObj c) = Inr (get v ''context'')"
    by (rule validated_shape)
  have b: "parse (ZOptional birthDataSchema) ([Key ''context''] @ [Key ''birthData'']) (get_prop c ''birthData'')
             = Inr (get (get v ''context'') ''birthData'')"
    using p unfolding contextSchema_def by (rule parse_object_get) simp_all
  show ?thesis
  proof (cases "get_prop c ''birthData'' = JUndefined")
    case True
    then show ?thesis using b by (simp add: raw c parse.simps(4))
  next
    case False
    then have "parse birthDataSchema ([Key ''context''] @ [Key ''birthData'']) (get_prop c ''birthData'')
             = Inr (get (get v ''context'') ''birthData'')"
      using b by (simp add: parse.simps(4))
    then obtain o' where "get (get v ''context'') ''birthData'' = JObj o'"
      unfolding birthDataSchema_def by (blast dest: parse_object_result)
    then show ?thesis using False by (simp add: raw c)
  qed
qed

lemma validated_healthMetrics:
  assumes "validateInput raw = Inr v"
  shows "get (get v ''context'') ''healthMetrics'' = drop_proto (get (get raw ''context'') ''healthMetrics'')"
    and "get (get v ''context'') ''healthMetrics'' = JUndefined \<or>
         (\<exists>h. get (get v ''context'') ''healthMetrics'' = JObj h)"
proof -
  from assms obtain kvs c where raw: "raw = JObj kvs" and c: "get_prop kvs ''context'' = JObj c"
    and p: "parse contextSchema [Key ''context''] (JObj c) = Inr (get v ''context'')"
    by (rule validated_shape)
  have h: "parse (ZOptional (ZRecord ZString ZAny)) ([Key ''context''] @ [Key ''healthMetrics''])
             (get_prop c ''healthMetrics'') = Inr (get (get v ''context'') ''healthMetrics'')"
    using p unfolding contextSchema_def by (rule parse_object_get) simp_all
  have "get (get v ''context'') ''healthMetrics'' = drop_proto (get_prop c ''healthMetrics'') \<and>
        (get (get v ''context'') ''healthMetrics'' = JUndefined \<or>
         (\<exists>h. get (get v ''context'') ''healthMetrics'' = JObj h))"
  proof (cases "get_prop c ''healthMetrics'' = JUndefined")
    case True
    then show ?thesis using h by (simp add: parse.simps(4))
  next
    case False
    then have "parse (ZRecord ZString ZAny) ([Key ''context''] @ [Key ''healthMetrics''])
             (get_prop c ''healthMetrics'') = Inr (get (get v ''context'') ''healthMetrics'')"
      using h by (simp add: parse.simps(4))
    from parse_record_Inr[OF this] show ?thesis by auto
  qed
  then have k1: "get (get v ''context'') ''healthMetrics'' = drop_proto (get_prop c ''healthMetrics'')"
    and k2: "get (get v ''context'') ''healthMetrics'' = JUndefined \<or>
         (\<exists>h. get (get v ''context'') ''healthMetrics'' = JObj h)"
    by (rule conjunct1, rule conjunct2)
  show "get (get v ''context'') ''healthMetrics'' = drop_proto (get (get raw ''context'') ''healthMetrics'')"
    using k1 by (simp add: raw c)
  show "get (get v ''context'') ''healthMetrics'' = JUndefined \<or>
         (\<exists>h. get (get v ''context'') ''healthMetrics'' = JObj h)"
    by (rule k2)
qed

text \<open>
  C10, as the code has it. A request without \<open>context.birthData\<close> always makes
  \<open>execute\<close> throw. For a request that \<open>validateInput\<close> accepts: without birth data
  \<open>execute\<close> throws its own error; with birth data it returns a response that passes
  \<open>validateOutput\<close>, provided the validated health metrics, when present, can be
  serialised by \<open>JSON.stringify\<close>; when they cannot (they hold a BigInt), it throws a
  \<open>TypeError\<close>. The validated health metrics are those of the request short of a
  property \<open>__proto__\<close>.
\<close>

theorem execute_throws_iff:
  "(get (get raw ''context'') ''birthData'' = JUndefined \<longrightarrow> isl (execute txt self raw)) \<and>
   (validateInput raw = Inr v \<longrightarrow>
      get (get v ''context'') ''healthMetrics'' = drop_proto (get (get raw ''context'') ''healthMetrics'') \<and>
      (get (get raw ''context'') ''birthData'' = JUndefined \<longrightarrow>
         execute txt self raw = Inl (Error ''Birth data required for Human Design calculation'')) \<and>
      (get (get raw ''context'') ''birthData'' \<noteq> JUndefined \<and>
       serialisable (drop_proto (get (get raw ''context'') ''healthMetrics'')) \<longrightarrow>
         (\<exists>out. execute txt self raw = Inr out \<and> validateOutput out = Inr out)) \<and>
      (get (get raw ''context'') ''birthData'' \<noteq> JUndefined \<and>
       \<not> serialisable (drop_proto (get (get raw ''context'') ''healthMetrics'')) \<longrightarrow>
         execute txt self raw = Inl TypeError))"
proof -
  have absent: "execute txt self raw = Inl (Error ''Birth data required for Human Design calculation'')"
    if "validateInput raw = Inr w" and "get (get raw ''context'') ''birthData'' = JUndefined" for w
    using that validated_birthData[OF that(1)] by (intro execute_no_birthData[OF that(1)]) simp
  have 1: "isl (execute txt self raw)" if u: "get (get raw ''context'') ''birthData'' = JUndefined"
  proof (cases "validateInput raw")
    case (Inl e)
    then show ?thesis by (simp only: execute_invalid sum.disc)
  next
    case (Inr w)
    show ?thesis by (simp only: absent[OF Inr u] sum.disc)
  qed
  have 3: "\<exists>out. execute txt self raw = Inr out \<and> validateOutput out = Inr out"
    if "validateInput raw = Inr v" and "get (get raw ''context'') ''birthData'' \<noteq> JUndefined"
      and "serialisable (drop_proto (get (get raw ''context'') ''healthMetrics''))"
    using that validated_birthData[OF that(1)] validated_healthMetrics(1)[OF that(1)]
    by (intro execute_returns[OF that(1)]) simp_all
  have 4: "execute txt self raw = Inl TypeError"
    if "validateInput raw = Inr v" and "get (get raw ''context'') ''birthData'' \<noteq> JUndefined"
      and "\<not> serialisable (drop_proto (get (get raw ''context'') ''healthMetrics''))"
  proof -
    have ns: "\<not> serialisable (get (get v ''context'') ''healthMetrics'')"
      using that(3) validated_healthMetrics(1)[OF that(1)] by simp
    with validated_healthMetrics(2)[OF that(1)]
    obtain h where "get (get v ''context'') ''healthMetrics'' = JObj h" by auto
    then have "truthy (get (get v ''context'') ''healthMetrics'')" by simp
    then show ?thesis
      using that ns validated_birthData[OF that(1)]
      by (intro execute_stringify_throws[OF that(1)]) simp_all
  qed
  show ?thesis
  proof (intro conjI impI)
    assume "get (get raw ''context'') ''birthData'' = JUndefined"
    then show "isl (execute txt self raw)" by (rule 1)
  next
    assume "validateInput raw = Inr v"
    then show "get (get v ''context'') ''healthMetrics'' =
                 drop_proto (get (get raw ''context'') ''healthMetrics'')"
      by (rule validated_healthMetrics(1))
  next
    assume "validateInput raw = Inr v" and "get (get raw ''context'') ''birthData'' = JUndefined"
    then show "execute txt self raw = Inl (Error ''Birth data required for Human Design calculation'')"
      by (rule absent)
  next
    assume a: "validateInput raw = Inr v"
      and b: "get (get raw ''context'') ''birthData'' \<noteq> JUndefined \<and>
              serialisable (drop_proto (get (get raw ''context'') ''healthMetrics''))"
    show "\<exists>out. execute txt self raw = Inr out \<and> validateOutput out = Inr out"
      using a conjunct1[OF b] conjunct2[OF b] by (rule 3)
  next
    assume a: "validateInput raw = Inr v"
      and b: "get (get raw ''context'') ''birthData'' \<noteq> JUndefined \<and>
              \<not> serialisable (drop_proto (get (get raw ''context'') ''healthMetrics''))"
    show "execute txt self raw = Inl TypeError"
      using a conjunct1[OF b] conjunct2[OF b] by (rule 4)
  qed
qed

lemma parse_Inl_nonempty: "parse s p v = Inl is \<Longrightarrow> is \<noteq> []"
  using parse_isl[of s p v] by simp

lemma validateInput_two_keys:
  "validateInput (JObj [(''framework'', JStr f), (''context'', ctx)]) =
     (case parse contextSchema [Key ''context''] ctx of
        Inl is \<Rightarrow> Inl (ZodError is)
      | Inr c \<Rightarrow> Inr (JObj [(''framework'', JStr f), (''context'', c)]))"
proof (cases "parse contextSchema [Key ''context''] ctx")
  case (Inl iss)
  from parse_Inl_nonempty[OF this] Inl show ?thesis
    unfolding validateInput_def schema_parse_def AgentInputSchema_eq
    by (subst parse.simps(7)) (simp add: parse.simps(1) mergeObject_def get_prop_def has_key_def)
next
  case (Inr c)
  then show ?thesis
    unfolding validateInput_def schema_parse_def AgentInputSchema_eq
    by (subst parse.simps(7)) (simp add: parse.simps(1) mergeObject_def get_prop_def has_key_def)
qed

lemma execute_depends_on_context:
  assumes "validateInput a = Inr va" and "validateInput b = Inr vb"
    and "get va ''context'' = get vb ''context''"
  shows "execute txt self a = execute txt self' b"
  unfolding execute_def by (simp only: assms sum.case)

text \<open>
  C2, as the code has it. The schema asks only that \<open>framework\<close> be a string, and
  \<open>execute\<close> never compares it with the agent's \<open>frameworks\<close>: on a request made of a
  framework and a context, the outcome is the same for every framework name, registered
  or not.
\<close>

theorem execute_ignores_framework:
  "execute txt self (JObj [(''framework'', JStr f), (''context'', ctx)]) =
   execute txt self (JObj [(''framework'', JStr g), (''context'', ctx)])"
proof (cases "parse contextSchema [Key ''context''] ctx")
  case (Inl iss)
  have "validateInput (JObj [(''framework'', JStr h), (''context'', ctx)]) = Inl (ZodError iss)" for h
    unfolding validateInput_two_keys Inl by simp
  from execute_invalid[OF this] show ?thesis by (simp only:)
next
  case (Inr c)
  have v: "validateInput (JObj [(''framework'', JStr h), (''context'', ctx)])
             = Inr (JObj [(''framework'', JStr h), (''context'', c)])" for h
    unfolding validateInput_two_keys Inr by simp
  have "get (JObj [(''framework'', JStr f), (''context'', c)]) ''context''
      = get (JObj [(''framework'', JStr g), (''context'', c)]) ''context''"
    by (simp add: get_prop_def)
  with v[of f] v[of g] show ?thesis by (rule execute_depends_on_context)
qed

lemma sample_birthData_parsed:
  "parse birthDataSchema p sample_birthData = Inr sample_birthData"
  by (simp add: sample_birthData_def birthDataSchema_def locationSchema_def parse.simps
      mergeObject_def get_prop_def has_key_def)

lemma sample_birthData_defined: "sample_birthData \<noteq> JUndefined" "truthy sample_birthData"
  by (simp_all add: sample_birthData_def)

lemma alpha_request_valid: "validateInput alpha_request = Inr alpha_request"
  unfolding alpha_request_def validateInput_two_keys contextSchema_def
  by (subst parse.simps(7))
     (simp add: parse.simps(1,4) mergeObject_def get_prop_def has_key_def)

lemma alpha_birth_request_valid: "validateInput alpha_birth_request = Inr alpha_birth_request"
  unfolding alpha_birth_request_def validateInput_two_keys contextSchema_def
  by (subst parse.simps(7))
     (simp add: parse.simps(1,4) sample_birthData_parsed sample_birthData_defined
        mergeObject_def get_prop_def has_key_def)

lemma birth_request_valid: "validateInput birth_request = Inr birth_request"
  unfolding birth_request_def validateInput_two_keys contextSchema_def
  by (subst parse.simps(7))
     (simp add: parse.simps(1,4) sample_birthData_parsed sample_birthData_defined
        mergeObject_def get_prop_def has_key_def)

lemma bigint_request_valid: "validateInput bigint_request = Inr bigint_request"
  unfolding bigint_request_def validateInput_two_keys contextSchema_def
  by (subst parse.simps(7))
     (simp add: parse.simps(1,4) sample_birthData_parsed sample_birthData_defined parse_record_any
        without_proto_def mergeObject_def get_prop_def has_key_def)

text \<open>The framework \<open>alpha\<close> is not among the agent's frameworks. Without birth data
  the request fails for the missing birth data, not for its framework; with birth data
  \<open>execute\<close> returns a response.\<close>

theorem unknown_framework_executes:
  "''alpha'' \<notin> set (frameworks HumanDesignAgent) \<and>
   execute no_text HumanDesignAgent alpha_request =
     Inl (Error ''Birth data required for Human Design calculation'') \<and>
   \<not> isl (execute no_text HumanDesignAgent alpha_birth_request)"
proof (intro conjI)
  show "''alpha'' \<notin> set (frameworks HumanDesignAgent)"
    by (simp add: HumanDesignAgent_def)
  have "\<not> truthy (get (get alpha_request ''context'') ''birthData'')"
    by (simp add: alpha_request_def get_prop_def)
  with alpha_request_valid
  show "execute no_text HumanDesignAgent alpha_request =
     Inl (Error ''Birth data required for Human Design calculation'')"
    by (rule execute_no_birthData)
  have b: "truthy (get (get alpha_birth_request ''context'') ''birthData'')"
    by (simp add: alpha_birth_request_def get_prop_def sample_birthData_defined)
  have h: "serialisable (get (get alpha_birth_request ''context'') ''healthMetrics'')"
    by (simp add: alpha_birth_request_def get_prop_def)
  from execute_returns[OF alpha_birth_request_valid b h, of no_text HumanDesignAgent]
  obtain out where "execute no_text HumanDesignAgent alpha_birth_request = Inr out" by (elim exE conjE)
  then show "\<not> isl (execute no_text HumanDesignAgent alpha_birth_request)" by (simp only: sum.disc simp_thms)
qed

theorem execute_throws_iff_witness:
  "validateInput birth_request = Inr birth_request \<and>
   get (get birth_request ''context'') ''birthData'' = sample_birthData \<and>
   (\<exists>out. execute no_text HumanDesignAgent birth_request = Inr out \<and> validateOutput out = Inr out)"
proof -
  have b: "get (get birth_request ''context'') ''birthData'' = sample_birthData"
    by (simp add: birth_request_def get_prop_def)
  have h: "serialisable (drop_proto (get (get birth_request ''context'') ''healthMetrics''))"
    by (simp add: birth_request_def get_prop_def)
  have c: "get (get birth_request ''context'') ''birthData'' \<noteq> JUndefined \<and>
           serialisable (drop_proto (get (get birth_request ''context'') ''healthMetrics''))"
    using h sample_birthData_defined(1) unfolding b by (rule conjI[rotated])
  note t = execute_throws_iff[of birth_request no_text HumanDesignAgent birth_request]
  note inner = mp[OF conjunct2[OF t] birth_request_valid]
  note ret = conjunct1[OF conjunct2[OF conjunct2[OF inner]]]
  from mp[OF ret c] birth_request_valid b show ?thesis by (intro conjI)
qed

text \<open>A request that \<open>validateInput\<close> accepts, with birth data, on which \<open>execute\<close>
  throws: its health metrics hold a BigInt.\<close>

theorem bigint_healthMetrics_throws:
  "validateInput bigint_request = Inr bigint_request \<and>
   get (get bigint_request ''context'') ''birthData'' = sample_birthData \<and>
   execute no_text HumanDesignAgent bigint_request =
     Inl TypeError"
proof (intro conjI)
  show "validateInput bigint_request = Inr bigint_request" by (rule bigint_request_valid)
  show b: "get (get bigint_request ''context'') ''birthData'' = sample_birthData"
    by (simp add: bigint_request_def get_prop_def)
  have t: "truthy (get (get bigint_request ''context'') ''birthData'')"
    unfolding b by (rule sample_birthData_defined)
  have h: "\<not> serialisable (get (get bigint_request ''context'') ''healthMetrics'')"
    and th: "truthy (get (get bigint_request ''context'') ''healthMetrics'')"
    by (simp_all add: bigint_request_def get_prop_def)
  from bigint_request_valid t h th
  show "execute no_text HumanDesignAgent bigint_request =
     Inl TypeError"
    by (rule execute_stringify_throws)
qed

end
